theory Spec2Isabelle
  imports Main
begin

section \<open>The exec package: a wrapper around os/exec\<close>

text \<open>
  The development follows the latest snapshot of the package (the one with \<open>System\<close>,
  the hooks and \<open>Setenv\<close>). A Go \<open>error\<close> is an \<open>error option\<close>: \<open>None\<close> is the nil
  error, \<open>Some msg\<close> the value of \<open>errors.New(msg)\<close> or an error of the platform.
  Strings are byte strings.
\<close>

type_synonym error = string

subsection \<open>The data model\<close>

text \<open>
  An \<open>io.Reader\<close> or \<open>io.Writer\<close> value. The nil interface is \<open>None\<close> in a field or an
  argument of type \<open>stream option\<close>. \<open>Buffer a\<close> is the \<open>bytes.Buffer\<close> at address \<open>a\<close>.
\<close>

datatype stream = os_Stdin | os_Stdout | os_Stderr | Buffer nat | Handle nat

text \<open>
  The fields of \<open>os/exec.Cmd\<close> that the package reads or writes. \<open>cmd_Env = None\<close> is
  the nil slice.
\<close>

record exec_Cmd =
  cmd_Path :: string
  cmd_Args :: "string list"
  cmd_Env :: "string list option"
  cmd_Dir :: string
  cmd_Stdin :: "stream option"
  cmd_Stdout :: "stream option"
  cmd_Stderr :: "stream option"

text \<open>
  A hook is a \<open>func(*Cmd) error\<close> written by the caller. From outside the package it
  reaches the exported part of the command only, the embedded \<open>*exec.Cmd\<close>, which it
  may change; a hook that calls back into \<open>Start\<close> or \<open>Wait\<close> is outside the model.
\<close>

type_synonym hook = "exec_Cmd \<Rightarrow> error option \<times> exec_Cmd"

text \<open>
  The struct \<open>Cmd\<close>: the embedded \<open>*exec.Cmd\<close> (field \<open>osCmd\<close>, taken to be a valid
  pointer) and the unexported fields. The nil function is \<open>None\<close>.
\<close>

record Cmd =
  osCmd :: exec_Cmd
  initalised :: bool
  waited :: bool
  before :: "hook option"
  after :: "hook option"

text \<open>An option is a \<open>func(*Cmd) error\<close>: it returns its error and the command as it left it.\<close>

type_synonym opt = "Cmd \<Rightarrow> error option \<times> Cmd"

subsection \<open>The platform and the observable world\<close>

text \<open>
  The platform is a parameter: \<open>os.Environ()\<close>, \<open>os/exec.LookPath\<close>, the outcome of
  \<open>(*exec.Cmd).Start\<close>, and the outcome of \<open>(*exec.Cmd).Wait\<close> together with the bytes
  that the child has written to its standard output by then.
\<close>

record platform =
  os_Environ :: "string list"
  os_LookPath :: "string \<Rightarrow> error + string"
  os_Start :: "exec_Cmd \<Rightarrow> error option"
  os_Wait :: "exec_Cmd \<Rightarrow> error option \<times> string"

text \<open>
  What the package does to the outside is recorded in a world: the sequence of calls of
  the platform primitives and of the hooks, and the contents of the byte buffers.
  \<open>ProcStart c\<close> is a call of the process-creation primitive with the specification \<open>c\<close>.
\<close>

datatype event = ProcStart exec_Cmd | ProcWait | BeforeHook | AfterHook

record world =
  events :: "event list"
  buffers :: "nat \<Rightarrow> string"
  allocated :: nat

definition log :: "event \<Rightarrow> world \<Rightarrow> world" where
  "log ev w = w\<lparr>events := events w @ [ev]\<rparr>"

text \<open>\<open>c.Cmd.Start()\<close>: the process-creation primitive, called with the specification as it is now.\<close>

definition cmd_Start :: "platform \<Rightarrow> Cmd \<Rightarrow> world \<Rightarrow> error option \<times> Cmd \<times> world" where
  "cmd_Start p c w = (os_Start p (osCmd c), c, log (ProcStart (osCmd c)) w)"

text \<open>
  \<open>c.Cmd.Wait()\<close>: blocks until the child exits. When the standard output is bound to a
  byte buffer, the bytes of the child are in the buffer when the call returns.
\<close>

definition cmd_Wait :: "platform \<Rightarrow> Cmd \<Rightarrow> world \<Rightarrow> error option \<times> world" where
  "cmd_Wait p c w =
     (case os_Wait p (osCmd c) of (err, out) \<Rightarrow>
        (err, log ProcWait
           (case cmd_Stdout (osCmd c) of
              Some (Buffer b) \<Rightarrow> w\<lparr>buffers := (buffers w)(b := buffers w b @ out)\<rparr>
            | _ \<Rightarrow> w)))"

subsection \<open>Library functions used by the package\<close>

text \<open>\<open>strings.HasPrefix\<close>.\<close>

definition HasPrefix :: "string \<Rightarrow> string \<Rightarrow> bool" where
  "HasPrefix s pre = (length pre \<le> length s \<and> take (length pre) s = pre)"

text \<open>
  The white space of \<open>unicode.IsSpace\<close>, each code point in its UTF-8 encoding: U+0009
  to U+000D, U+0020, U+0085, U+00A0, U+1680, U+2000 to U+200A, U+2028, U+2029, U+202F,
  U+205F and U+3000. No encoding starts inside another character, so a scan over the
  bytes finds the white space characters that a scan over the decoded characters finds.
\<close>

definition White_Space :: "string list" where
  "White_Space =
     [[CHR 0x09], [CHR 0x0A], [CHR 0x0B], [CHR 0x0C], [CHR 0x0D], [CHR 0x20],
      [CHR 0xC2, CHR 0x85], [CHR 0xC2, CHR 0xA0],
      [CHR 0xE1, CHR 0x9A, CHR 0x80],
      [CHR 0xE2, CHR 0x80, CHR 0x80], [CHR 0xE2, CHR 0x80, CHR 0x81],
      [CHR 0xE2, CHR 0x80, CHR 0x82], [CHR 0xE2, CHR 0x80, CHR 0x83],
      [CHR 0xE2, CHR 0x80, CHR 0x84], [CHR 0xE2, CHR 0x80, CHR 0x85],
      [CHR 0xE2, CHR 0x80, CHR 0x86], [CHR 0xE2, CHR 0x80, CHR 0x87],
      [CHR 0xE2, CHR 0x80, CHR 0x88], [CHR 0xE2, CHR 0x80, CHR 0x89],
      [CHR 0xE2, CHR 0x80, CHR 0x8A],
      [CHR 0xE2, CHR 0x80, CHR 0xA8], [CHR 0xE2, CHR 0x80, CHR 0xA9],
      [CHR 0xE2, CHR 0x80, CHR 0xAF],
      [CHR 0xE2, CHR 0x81, CHR 0x9F],
      [CHR 0xE3, CHR 0x80, CHR 0x80]]"

text \<open>The number of bytes of the white space character at the head of a string, or 0.\<close>

definition space_width :: "string \<Rightarrow> nat" where
  "space_width s = (case find (HasPrefix s) White_Space of None \<Rightarrow> 0 | Some r \<Rightarrow> length r)"

text \<open>The bytes up to the next white space character, and the rest of the string.\<close>

fun token :: "string \<Rightarrow> string \<times> string" where
  "token [] = ([], [])"
| "token (ch # s) =
     (if 0 < space_width (ch # s) then ([], ch # s)
      else case token s of (tok, rest) \<Rightarrow> (ch # tok, rest))"

text \<open>
  \<open>strings.Fields\<close>: splits the string around each run of one or more white space
  characters; the result has no empty string.
\<close>

function Fields :: "string \<Rightarrow> string list" where
  "Fields s =
     (if s = [] then []
      else if 0 < space_width s then Fields (drop (space_width s) s)
      else case token s of (tok, rest) \<Rightarrow> tok # Fields rest)"
  by pat_completeness auto
termination
proof (relation "measure length", goal_cases)
  case 1
  show ?case by simp
next
  case (2 s)
  then show ?case by simp
next
  case (3 s tok rest)
  have le: "length (snd (token r)) \<le> length r" for r
    by (induction r) (auto simp add: case_prod_unfold)
  from 3 obtain ch r where c: "s = ch # r" by (cases s) auto
  with 3 have "rest = snd (token r)"
    by (simp add: case_prod_unfold)
  with le [of r] c show ?case by simp
qed

declare Fields.simps [simp del]

text \<open>
  \<open>os/exec.Command\<close>: sets only \<open>Path\<close> and \<open>Args\<close>. A name that is not empty and has
  no path separator is resolved with \<open>LookPath\<close>, and \<open>Path\<close> is the resolved path when
  there is one.
\<close>

definition exec_Command :: "platform \<Rightarrow> string \<Rightarrow> string list \<Rightarrow> exec_Cmd" where
  "exec_Command p name args =
     \<lparr>cmd_Path = (if name \<noteq> [] \<and> CHR ''/'' \<notin> set name
                  then case os_LookPath p name of
                         Inr lp \<Rightarrow> (if lp \<noteq> [] then lp else name)
                       | Inl e \<Rightarrow> name
                  else name),
      cmd_Args = name # args,
      cmd_Env = None,
      cmd_Dir = [],
      cmd_Stdin = None,
      cmd_Stdout = None,
      cmd_Stderr = None\<rparr>"

subsection \<open>The package\<close>

definition LookPath :: "platform \<Rightarrow> string \<Rightarrow> error + string" where
  "LookPath p file = os_LookPath p file"

definition Command :: "platform \<Rightarrow> string \<Rightarrow> string list \<Rightarrow> Cmd" where
  "Command p name args =
     \<lparr>osCmd = exec_Command p name args, initalised = True, waited = False,
      before = None, after = None\<rparr>"

text \<open>The zero value of the struct, as far as the package looks at it.\<close>

definition zero_Cmd :: "exec_Cmd \<Rightarrow> Cmd" where
  "zero_Cmd x = \<lparr>osCmd = x, initalised = False, waited = False, before = None, after = None\<rparr>"

definition Stdin :: "stream option \<Rightarrow> opt" where
  "Stdin r c =
     (if cmd_Stdin (osCmd c) \<noteq> None then (Some ''exec: Stdin already set'', c)
      else (None, c\<lparr>osCmd := (osCmd c)\<lparr>cmd_Stdin := r\<rparr>\<rparr>))"

definition Stdout :: "stream option \<Rightarrow> opt" where
  "Stdout wr c =
     (if cmd_Stdout (osCmd c) \<noteq> None then (Some ''exec: Stdout already set'', c)
      else (None, c\<lparr>osCmd := (osCmd c)\<lparr>cmd_Stdout := wr\<rparr>\<rparr>))"

definition Stderr :: "stream option \<Rightarrow> opt" where
  "Stderr wr c =
     (if cmd_Stderr (osCmd c) \<noteq> None then (Some ''exec: Stderr already set'', c)
      else (None, c\<lparr>osCmd := (osCmd c)\<lparr>cmd_Stderr := wr\<rparr>\<rparr>))"

definition BeforeFunc :: "hook option \<Rightarrow> opt" where
  "BeforeFunc fn c =
     (if before c \<noteq> None then (Some ''exec: BeforeFunc already set'', c)
      else (None, c\<lparr>before := fn\<rparr>))"

definition AfterFunc :: "hook option \<Rightarrow> opt" where
  "AfterFunc fn c =
     (if after c \<noteq> None then (Some ''exec: AfterFunc already set'', c)
      else (None, c\<lparr>after := fn\<rparr>))"

text \<open>
  The loop of \<open>Setenv\<close> over the entries: the first entry that starts with \<open>key\<close> is
  replaced by \<open>kv\<close> and the loop returns; \<open>None\<close> when the loop ends without a match.
\<close>

fun replace_first :: "string \<Rightarrow> string \<Rightarrow> string list \<Rightarrow> string list option" where
  "replace_first key kv [] = None"
| "replace_first key kv (e # es) =
     (if HasPrefix e key then Some (kv # es)
      else map_option ((#) e) (replace_first key kv es))"

definition setenv :: "string \<Rightarrow> string \<Rightarrow> string list \<Rightarrow> string list" where
  "setenv key val env =
     (case replace_first (key @ ''='') (key @ ''='' @ val) env of
        Some env' \<Rightarrow> env'
      | None \<Rightarrow> env @ [key @ ''='' @ val])"

text \<open>The entries of a nil slice are those of the empty slice.\<close>

definition entries :: "string list option \<Rightarrow> string list" where
  "entries e = (case e of None \<Rightarrow> [] | Some env \<Rightarrow> env)"

text \<open>
  The closure that \<open>Setenv\<close> returns keeps \<open>key\<close> in a variable of its own and appends
  \<open>=\<close> to it at each call. \<open>Setenv_call n key val\<close> is the call of the closure after \<open>n\<close>
  earlier calls, and \<open>Setenv key val\<close> is its first call: each \<open>Setenv\<close> in a list of
  options stands for a closure of its own, applied once.
\<close>

definition Setenv_call :: "nat \<Rightarrow> string \<Rightarrow> string \<Rightarrow> opt" where
  "Setenv_call n key val c =
     (None, c\<lparr>osCmd := (osCmd c)\<lparr>cmd_Env :=
        Some (setenv (key @ replicate n CHR ''='') val (entries (cmd_Env (osCmd c))))\<rparr>\<rparr>)"

definition Setenv :: "string \<Rightarrow> string \<Rightarrow> opt" where
  "Setenv key val = Setenv_call 0 key val"

definition Dir :: "string \<Rightarrow> opt" where
  "Dir dir c = (None, c\<lparr>osCmd := (osCmd c)\<lparr>cmd_Dir := dir\<rparr>\<rparr>)"

definition applyDefaultOptions :: "platform \<Rightarrow> Cmd \<Rightarrow> error option \<times> Cmd" where
  "applyDefaultOptions p c =
     (None, if cmd_Env (osCmd c) = None
            then c\<lparr>osCmd := (osCmd c)\<lparr>cmd_Env := Some (os_Environ p)\<rparr>\<rparr>
            else c)"

fun applyOptions :: "Cmd \<Rightarrow> opt list \<Rightarrow> error option \<times> Cmd" where
  "applyOptions c [] = (None, c)"
| "applyOptions c (opt # opts) =
     (case opt c of
        (Some err, c') \<Rightarrow> (Some err, c')
      | (None, c') \<Rightarrow> applyOptions c' opts)"

definition Start :: "platform \<Rightarrow> Cmd \<Rightarrow> opt list \<Rightarrow> world \<Rightarrow> error option \<times> Cmd \<times> world" where
  "Start p c opts w =
     (if \<not> initalised c then (Some ''exec: command not initalised'', c, w)
      else case applyDefaultOptions p c of
        (Some err, c1) \<Rightarrow> (Some err, c1, w)
      | (None, c1) \<Rightarrow>
          (case applyOptions c1 opts of
             (Some err, c2) \<Rightarrow> (Some err, c2, w)
           | (None, c2) \<Rightarrow>
               (case before c2 of
                  None \<Rightarrow> cmd_Start p c2 w
                | Some fn \<Rightarrow>
                    (case fn (osCmd c2) of
                       (Some err, x) \<Rightarrow> (Some err, c2\<lparr>osCmd := x\<rparr>, log BeforeHook w)
                     | (None, x) \<Rightarrow> cmd_Start p (c2\<lparr>osCmd := x\<rparr>) (log BeforeHook w)))))"

text \<open>
  \<open>Wait\<close>: the deferred function runs after \<open>c.Cmd.Wait()\<close> has returned and may replace
  the named result \<open>err\<close>.
\<close>

definition Wait :: "platform \<Rightarrow> Cmd \<Rightarrow> world \<Rightarrow> error option \<times> Cmd \<times> world" where
  "Wait p c w =
     (if waited c then (Some ''exec: Wait was already called'', c, w)
      else let c1 = c\<lparr>waited := True\<rparr> in
        case cmd_Wait p c1 w of (err, w1) \<Rightarrow>
          (case after c1 of
             None \<Rightarrow> (err, c1, w1)
           | Some fn \<Rightarrow>
               (case fn (osCmd c1) of (errAfter, x) \<Rightarrow>
                  (if err = None then errAfter else err, c1\<lparr>osCmd := x\<rparr>, log AfterHook w1))))"

definition Run :: "platform \<Rightarrow> Cmd \<Rightarrow> opt list \<Rightarrow> world \<Rightarrow> error option \<times> Cmd \<times> world" where
  "Run p c opts w =
     (case Start p c opts w of
        (Some err, c', w') \<Rightarrow> (Some err, c', w')
      | (None, c', w') \<Rightarrow> Wait p c' w')"

text \<open>
  \<open>Output\<close>: \<open>var b bytes.Buffer\<close> is a new, empty buffer; the result is its contents
  after \<open>Run\<close> and the error of \<open>Run\<close>.
\<close>

definition new_Buffer :: "world \<Rightarrow> nat \<times> world" where
  "new_Buffer w =
     (allocated w, w\<lparr>buffers := (buffers w)(allocated w := []), allocated := Suc (allocated w)\<rparr>)"

definition Output :: "platform \<Rightarrow> Cmd \<Rightarrow> opt list \<Rightarrow> world \<Rightarrow> (string \<times> error option) \<times> Cmd \<times> world" where
  "Output p c opts w =
     (case new_Buffer w of (b, w0) \<Rightarrow>
        (case Run p c (Stdout (Some (Buffer b)) # opts) w0 of (err, c', w') \<Rightarrow>
           ((buffers w' b, err), c', w')))"

definition System :: "platform \<Rightarrow> string \<Rightarrow> opt list \<Rightarrow> world \<Rightarrow> error option \<times> Cmd \<times> world" where
  "System p command opts w =
     (let args = Fields command;
          args = ''-c'' # args;
          cmd = Command p ''/bin/sh'' args;
          opts = [Stdin (Some os_Stdin), Stdout (Some os_Stdout), Stderr (Some os_Stderr)] @ opts
      in Run p cmd opts w)"

subsection \<open>Reading the world\<close>

text \<open>The events that a call has added, and whether one of them is a process creation.\<close>

fun is_ProcStart :: "event \<Rightarrow> bool" where
  "is_ProcStart (ProcStart c) = True"
| "is_ProcStart ev = False"

definition new_events :: "world \<Rightarrow> world \<Rightarrow> event list" where
  "new_events w w' = drop (length (events w)) (events w')"

subsection \<open>Options that all succeed\<close>

text \<open>
  Whether each option of a list returns no error when the options are applied from left
  to right, each to the command as the one before left it, and the command they leave.
\<close>

fun all_succeed :: "Cmd \<Rightarrow> opt list \<Rightarrow> bool" where
  "all_succeed c [] = True"
| "all_succeed c (opt # opts) = (fst (opt c) = None \<and> all_succeed (snd (opt c)) opts)"

definition apply_all :: "Cmd \<Rightarrow> opt list \<Rightarrow> Cmd" where
  "apply_all c opts = foldl (\<lambda>c opt. snd (opt c)) c opts"

subsection \<open>Sequences of calls on one command\<close>

text \<open>The methods a caller may invoke on a command, one after the other.\<close>

datatype call = CallStart "opt list" | CallWait | CallRun "opt list" | CallOutput "opt list"

fun call_opts :: "call \<Rightarrow> opt list" where
  "call_opts (CallStart opts) = opts"
| "call_opts CallWait = []"
| "call_opts (CallRun opts) = opts"
| "call_opts (CallOutput opts) = opts"

fun do_call :: "platform \<Rightarrow> call \<Rightarrow> Cmd \<times> world \<Rightarrow> Cmd \<times> world" where
  "do_call p (CallStart opts) (c, w) = snd (Start p c opts w)"
| "do_call p CallWait (c, w) = snd (Wait p c w)"
| "do_call p (CallRun opts) (c, w) = snd (Run p c opts w)"
| "do_call p (CallOutput opts) (c, w) = snd (Output p c opts w)"

fun do_calls :: "platform \<Rightarrow> call list \<Rightarrow> Cmd \<times> world \<Rightarrow> Cmd \<times> world" where
  "do_calls p [] s = s"
| "do_calls p (cl # cls) s = do_calls p cls (do_call p cl s)"

text \<open>
  An option that leaves the unexported field \<open>waited\<close> alone, as every option written
  outside the package does.
\<close>

definition keeps_waited :: "opt \<Rightarrow> bool" where
  "keeps_waited opt = (\<forall>c. waited (snd (opt c)) = waited c)"

subsection \<open>Entries of a key, and two commands met below\<close>

text \<open>The entries of an environment that belong to a key: those that start with \<open>key=\<close>.\<close>

definition key_entries :: "string \<Rightarrow> string list \<Rightarrow> string list" where
  "key_entries key env = filter (\<lambda>e. HasPrefix e (key @ ''='')) env"

text \<open>
  The specification that \<open>System\<close> has built when its three default options have been
  applied.
\<close>

definition shell_spec :: "platform \<Rightarrow> string \<Rightarrow> exec_Cmd" where
  "shell_spec p command =
     \<lparr>cmd_Path = ''/bin/sh'',
      cmd_Args = ''/bin/sh'' # ''-c'' # Fields command,
      cmd_Env = Some (os_Environ p),
      cmd_Dir = [],
      cmd_Stdin = Some os_Stdin,
      cmd_Stdout = Some os_Stdout,
      cmd_Stderr = Some os_Stderr\<rparr>"

text \<open>The command after the default options and the internal option of \<open>Output\<close>.\<close>

definition capturing :: "platform \<Rightarrow> Cmd \<Rightarrow> world \<Rightarrow> Cmd" where
  "capturing p c w =
     (snd (applyDefaultOptions p c))
       \<lparr>osCmd := (osCmd (snd (applyDefaultOptions p c)))\<lparr>cmd_Stdout := Some (Buffer (allocated w))\<rparr>\<rparr>"

subsection \<open>Example values\<close>

definition example_platform :: platform where
  "example_platform =
     \<lparr>os_Environ = [''PATH=/bin'', ''HOME=/root''],
      os_LookPath = (\<lambda>file. Inr (''/usr/bin/'' @ file)),
      os_Start = (\<lambda>c. None),
      os_Wait = (\<lambda>c. (Some ''exit status 1'', ''partial''))\<rparr>"

definition example_world :: world where
  "example_world = \<lparr>events = [], buffers = (\<lambda>a. []), allocated = 0\<rparr>"

definition failing_hook :: hook where
  "failing_hook x = (Some ''hook failed'', x)"

definition quiet_hook :: hook where
  "quiet_hook x = (None, x)"

text \<open>
  A command whose environment the caller has set, through the exported field \<open>Env\<close>, to
  the environment of the calling process followed by one more entry.
\<close>

definition with_entry :: "platform \<Rightarrow> string \<Rightarrow> Cmd" where
  "with_entry p entry =
     (Command p ''/usr/bin/go'' [])
       \<lparr>osCmd := (exec_Command p ''/usr/bin/go'' [])\<lparr>cmd_Env := Some (os_Environ p @ [entry])\<rparr>\<rparr>"

section \<open>Properties\<close>

subsection \<open>Basic facts\<close>

lemma log_events [simp]: "events (log ev w) = events w @ [ev]"
  by (simp add: log_def)

lemma log_buffers [simp]: "buffers (log ev w) = buffers w"
  by (simp add: log_def)

lemma log_allocated [simp]: "allocated (log ev w) = allocated w"
  by (simp add: log_def)

lemma cmd_Wait_fst [simp]: "fst (cmd_Wait p c w) = fst (os_Wait p (osCmd c))"
  by (simp add: cmd_Wait_def case_prod_unfold)

lemma cmd_Wait_events [simp]: "events (snd (cmd_Wait p c w)) = events w @ [ProcWait]"
  by (simp add: cmd_Wait_def case_prod_unfold split: option.split stream.split)

lemma cmd_Wait_allocated [simp]: "allocated (snd (cmd_Wait p c w)) = allocated w"
  by (simp add: cmd_Wait_def case_prod_unfold split: option.split stream.split)

lemma Wait_unfold:
  "Wait p c w =
     (if waited c then (Some ''exec: Wait was already called'', c, w)
      else case after c of
        None \<Rightarrow> (fst (os_Wait p (osCmd c)), c\<lparr>waited := True\<rparr>, snd (cmd_Wait p (c\<lparr>waited := True\<rparr>) w))
      | Some fn \<Rightarrow>
          (if fst (os_Wait p (osCmd c)) = None then fst (fn (osCmd c)) else fst (os_Wait p (osCmd c)),
           c\<lparr>waited := True, osCmd := snd (fn (osCmd c))\<rparr>,
           log AfterHook (snd (cmd_Wait p (c\<lparr>waited := True\<rparr>) w))))"
  by (auto simp add: Wait_def Let_def case_prod_unfold split: option.split)

lemma applyOptions_append:
  "applyOptions c (pre @ post) =
     (case applyOptions c pre of
        (Some err, c') \<Rightarrow> (Some err, c')
      | (None, c') \<Rightarrow> applyOptions c' post)"
  by (induction pre arbitrary: c) (auto split: prod.split option.split)

lemma new_events_same [simp]: "new_events w w = []"
  by (simp add: new_events_def)

lemma new_events_log [simp]: "new_events w (log ev w) = [ev]"
  by (simp add: new_events_def)

lemma new_events_log2 [simp]: "new_events w (log ev' (log ev w)) = [ev, ev']"
  by (simp add: new_events_def)

lemma applyOptions_fold:
  "fst (applyOptions c opts) = None \<Longrightarrow> snd (applyOptions c opts) = foldl (\<lambda>c opt. snd (opt c)) c opts"
  by (induction opts arbitrary: c) (auto split: prod.splits option.splits)

lemma Start_unfold:
  "initalised c \<Longrightarrow>
   Start p c opts w =
     (case applyOptions (snd (applyDefaultOptions p c)) opts of
        (Some err, c2) \<Rightarrow> (Some err, c2, w)
      | (None, c2) \<Rightarrow>
          (case before c2 of
             None \<Rightarrow> (os_Start p (osCmd c2), c2, log (ProcStart (osCmd c2)) w)
           | Some fn \<Rightarrow>
               (case fn (osCmd c2) of
                  (Some err, x) \<Rightarrow> (Some err, c2\<lparr>osCmd := x\<rparr>, log BeforeHook w)
                | (None, x) \<Rightarrow> (os_Start p x, c2\<lparr>osCmd := x\<rparr>, log (ProcStart x) (log BeforeHook w)))))"
  by (simp add: Start_def applyDefaultOptions_def cmd_Start_def split: prod.split option.split)

subsection \<open>Splitting on white space\<close>

lemma space_width_le: "space_width s \<le> length s"
  by (auto simp add: space_width_def HasPrefix_def split: option.split dest!: find_Some_iff [THEN iffD1])

lemma token_append: "fst (token s) @ snd (token s) = s"
  by (induction s) (auto simp add: case_prod_unfold)

lemma token_rest: "snd (token s) = [] \<or> 0 < space_width (snd (token s))"
  by (induction s) (auto simp add: case_prod_unfold)

lemma token_nonempty: "s \<noteq> [] \<Longrightarrow> space_width s = 0 \<Longrightarrow> fst (token s) \<noteq> []"
  by (cases s) (auto simp add: case_prod_unfold)

lemma token_no_space: "i < length (fst (token s)) \<Longrightarrow> space_width (drop i s) = 0"
proof (induction s arbitrary: i)
  case Nil
  then show ?case by simp
next
  case (Cons ch s)
  show ?case
  proof (cases "0 < space_width (ch # s)")
    case True
    with Cons.prems show ?thesis by simp
  next
    case False
    show ?thesis
    proof (cases i)
      case 0
      with False show ?thesis by simp
    next
      case (Suc j)
      with Cons.prems False have "j < length (fst (token s))"
        by (simp add: case_prod_unfold)
      from Cons.IH [OF this] Suc show ?thesis by simp
    qed
  qed
qed

lemma HasPrefix_appendI: "HasPrefix x r \<Longrightarrow> HasPrefix (x @ y) r"
  by (auto simp add: HasPrefix_def)

lemma space_width_pos_iff: "0 < space_width s \<longleftrightarrow> (\<exists>r\<in>set White_Space. HasPrefix s r)"
proof -
  have ne: "\<forall>r\<in>set White_Space. r \<noteq> []"
    by (simp add: White_Space_def)
  show ?thesis
  proof (cases "find (HasPrefix s) White_Space")
    case None
    then have "space_width s = 0" by (simp add: space_width_def)
    moreover from None have "\<not> (\<exists>r\<in>set White_Space. HasPrefix s r)"
      by (simp add: find_None_iff)
    ultimately show ?thesis by simp
  next
    case (Some r)
    then have "r \<in> set White_Space \<and> HasPrefix s r"
      by (auto simp add: find_Some_iff)
    with Some ne show ?thesis by (auto simp add: space_width_def)
  qed
qed

lemma space_width_append: "0 < space_width x \<Longrightarrow> 0 < space_width (x @ y)"
  by (auto simp add: space_width_pos_iff intro: HasPrefix_appendI)

lemma Fields_Nil [simp]: "Fields [] = []"
  by (simp add: Fields.simps)

lemma Fields_space: "0 < space_width s \<Longrightarrow> Fields s = Fields (drop (space_width s) s)"
  by (subst Fields.simps) auto

lemma Fields_token:
  "s \<noteq> [] \<Longrightarrow> space_width s = 0 \<Longrightarrow> Fields s = fst (token s) # Fields (snd (token s))"
  by (subst Fields.simps) (simp add: case_prod_unfold)

lemma Fields_tokens:
  "t \<in> set (Fields s) \<Longrightarrow> t \<noteq> [] \<and> (\<forall>i<length t. space_width (drop i t) = 0)"
proof (induction s arbitrary: t rule: Fields.induct)
  case (1 s)
  show ?case
  proof (cases "s = []")
    case True
    with "1.prems" show ?thesis by simp
  next
    case ne: False
    show ?thesis
    proof (cases "0 < space_width s")
      case True
      with "1.prems" have "t \<in> set (Fields (drop (space_width s) s))"
        by (simp add: Fields_space)
      from "1.IH"(1) [OF ne True this] show ?thesis .
    next
      case False
      with ne "1.prems" have "t = fst (token s) \<or> t \<in> set (Fields (snd (token s)))"
        by (simp add: Fields_token)
      then show ?thesis
      proof
        assume t: "t = fst (token s)"
        have "\<forall>i<length t. space_width (drop i t) = 0"
        proof (intro allI impI)
          fix i assume i: "i < length t"
          with t have "space_width (drop i s) = 0" by (simp add: token_no_space)
          moreover have "drop i (t @ snd (token s)) = drop i t @ snd (token s)"
            using i by simp
          then have "drop i s = drop i t @ snd (token s)"
            using token_append [of s] t by simp
          ultimately show "space_width (drop i t) = 0"
            using space_width_append [of "drop i t" "snd (token s)"] by auto
        qed
        with t token_nonempty [OF ne] False show ?thesis by simp
      next
        assume "t \<in> set (Fields (snd (token s)))"
        from "1.IH"(2) [OF ne False prod.collapse this] show ?thesis .
      qed
    qed
  qed
qed

subsection \<open>Commands that were not made by \<open>Command\<close>\<close>

text \<open>
  C8. On a command that \<open>Command\<close> did not make (the flag \<open>initalised\<close> is false, as in
  the zero value), each of \<open>Start\<close>, \<open>Run\<close> and \<open>Output\<close> returns the error
  "exec: command not initalised", leaves the command as it was and calls no platform
  primitive and no hook: the sequence of events is unchanged. \<open>Output\<close> returns no bytes.
\<close>

theorem not_initalised_fails:
  assumes "\<not> initalised c"
  shows "Start p c opts w = (Some ''exec: command not initalised'', c, w)
       \<and> Run p c opts w = (Some ''exec: command not initalised'', c, w)
       \<and> fst (Output p c opts w) = ([], Some ''exec: command not initalised'')
       \<and> fst (snd (Output p c opts w)) = c
       \<and> events (snd (snd (Output p c opts w))) = events w"
  using assms by (simp add: Start_def Run_def Output_def new_Buffer_def)

theorem not_initalised_fails_witness:
  "\<not> initalised (zero_Cmd (exec_Command example_platform ''git'' [''status'']))
   \<and> Start example_platform (zero_Cmd (exec_Command example_platform ''git'' [''status'']))
        [Dir ''/tmp''] example_world
      = (Some ''exec: command not initalised'',
         zero_Cmd (exec_Command example_platform ''git'' [''status'']), example_world)
   \<and> fst (Output example_platform (zero_Cmd (exec_Command example_platform ''git'' [''status'']))
        [Dir ''/tmp''] example_world) = ([], Some ''exec: command not initalised'')"
  using not_initalised_fails [of "zero_Cmd (exec_Command example_platform ''git'' [''status''])"
      example_platform "[Dir ''/tmp'']" example_world]
  by (simp add: zero_Cmd_def)

subsection \<open>Wait\<close>

text \<open>
  C9. Whatever the first call of \<open>Wait\<close> did, a second call on the resulting command
  returns the error "exec: Wait was already called" and changes nothing: the world is
  the same, so the platform wait is not called (the call does not block) and the
  after-hook is not called again.
\<close>

theorem Wait_twice:
  "case Wait p c w of (err1, c1, w1) \<Rightarrow>
     Wait p c1 w1 = (Some ''exec: Wait was already called'', c1, w1)"
  by (simp add: Wait_unfold case_prod_unfold split: option.split)

text \<open>
  C3. When \<open>Wait\<close> is called for the first time on a command with an after-hook, the
  platform wait is called and then the hook, exactly once and whatever the platform wait
  returned: the events added are the platform wait followed by one call of the hook.
  The result is the error of the platform wait if there is one (the error of the hook is
  dropped), and otherwise the error of the hook, if any.
\<close>

theorem Wait_after_hook:
  assumes "\<not> waited c" and "after c = Some fn"
  shows "fst (Wait p c w) =
           (case fst (os_Wait p (osCmd c)) of
              None \<Rightarrow> fst (fn (osCmd c))
            | Some err \<Rightarrow> Some err)
       \<and> events (snd (snd (Wait p c w))) = events w @ [ProcWait, AfterHook]
       \<and> fst (snd (Wait p c w)) = c\<lparr>waited := True, osCmd := snd (fn (osCmd c))\<rparr>
       \<and> (case snd (Wait p c w) of (c', w') \<Rightarrow>
            events (snd (snd (Wait p c' w'))) = events w @ [ProcWait, AfterHook])"
  using assms by (simp add: Wait_unfold split: option.split)

theorem Wait_after_hook_witness:
  "\<not> waited ((Command example_platform ''/bin/false'' [])\<lparr>after := Some failing_hook\<rparr>)
   \<and> after ((Command example_platform ''/bin/false'' [])\<lparr>after := Some failing_hook\<rparr>) = Some failing_hook
   \<and> fst (Wait example_platform ((Command example_platform ''/bin/false'' [])\<lparr>after := Some failing_hook\<rparr>)
        example_world) = Some ''exit status 1''
   \<and> events (snd (snd (Wait example_platform
        ((Command example_platform ''/bin/false'' [])\<lparr>after := Some failing_hook\<rparr>) example_world)))
      = [ProcWait, AfterHook]"
  using Wait_after_hook [of "(Command example_platform ''/bin/false'' [])\<lparr>after := Some failing_hook\<rparr>"
      failing_hook example_platform example_world]
  by (simp add: Command_def example_platform_def example_world_def)

subsection \<open>The flag \<open>waited\<close>\<close>

lemma applyOptions_keeps_waited:
  "\<forall>opt\<in>set opts. keeps_waited opt \<Longrightarrow> waited (snd (applyOptions c opts)) = waited c"
proof (induction opts arbitrary: c)
  case Nil
  then show ?case by simp
next
  case (Cons opt opts)
  have k: "waited (snd (opt c)) = waited c"
    using Cons.prems by (simp add: keeps_waited_def)
  show ?case
  proof (cases "opt c")
    case (Pair e c')
    with k have w: "waited c' = waited c" by simp
    show ?thesis
    proof (cases e)
      case None
      with Pair w Cons show ?thesis by simp
    next
      case (Some err)
      with Pair w show ?thesis by simp
    qed
  qed
qed

lemma applyDefaultOptions_waited [simp]:
  "waited (snd (applyDefaultOptions p c)) = waited c"
  by (simp add: applyDefaultOptions_def)

lemma applyDefaultOptions_fst [simp]: "fst (applyDefaultOptions p c) = None"
  by (simp add: applyDefaultOptions_def)

lemma Start_keeps_waited:
  assumes "\<forall>opt\<in>set opts. keeps_waited opt"
  shows "waited (fst (snd (Start p c opts w))) = waited c"
proof -
  have "waited (snd (applyOptions (snd (applyDefaultOptions p c)) opts)) = waited c"
    using applyOptions_keeps_waited [OF assms] by simp
  then show ?thesis
    by (auto simp add: Start_def cmd_Start_def case_prod_unfold split: option.split)
qed

lemma Wait_sets_waited: "waited (fst (snd (Wait p c w)))"
  by (simp add: Wait_unfold split: option.split)

lemma Run_keeps_waited:
  assumes "\<forall>opt\<in>set opts. keeps_waited opt" and "waited c"
  shows "waited (fst (snd (Run p c opts w)))"
  using Start_keeps_waited [OF assms(1), of p c w] assms(2) Wait_sets_waited
  by (simp add: Run_def case_prod_unfold split: option.split)

lemma Stdout_keeps_waited: "keeps_waited (Stdout wr)"
  by (simp add: keeps_waited_def Stdout_def)

lemma package_options_keep_waited:
  "keeps_waited (Stdin r) \<and> keeps_waited (Stdout wr) \<and> keeps_waited (Stderr wr')
   \<and> keeps_waited (BeforeFunc fn) \<and> keeps_waited (AfterFunc fn')
   \<and> keeps_waited (Setenv key val) \<and> keeps_waited (Dir dir)"
  by (simp add: keeps_waited_def Stdin_def Stdout_def Stderr_def BeforeFunc_def AfterFunc_def
      Setenv_def Setenv_call_def Dir_def)

lemma Output_keeps_waited:
  assumes "\<forall>opt\<in>set opts. keeps_waited opt" and "waited c"
  shows "waited (fst (snd (Output p c opts w)))"
proof -
  have "\<forall>opt\<in>set (Stdout (Some (Buffer (allocated w))) # opts). keeps_waited opt"
    using assms(1) by (simp add: Stdout_keeps_waited)
  from Run_keeps_waited [OF this assms(2)] show ?thesis
    by (simp add: Output_def new_Buffer_def case_prod_unfold)
qed

lemma do_call_keeps_waited:
  assumes "\<forall>opt\<in>set (call_opts cl). keeps_waited opt" and "waited (fst s)"
  shows "waited (fst (do_call p cl s))"
proof (cases s)
  case (Pair c w)
  with assms show ?thesis
    by (cases cl)
       (simp_all add: Start_keeps_waited Run_keeps_waited Output_keeps_waited Wait_sets_waited)
qed

lemma do_calls_keeps_waited:
  "\<forall>cl\<in>set cls. \<forall>opt\<in>set (call_opts cl). keeps_waited opt \<Longrightarrow> waited (fst s)
   \<Longrightarrow> waited (fst (do_calls p cls s))"
  by (induction cls arbitrary: s) (simp_all add: do_call_keeps_waited)

text \<open>
  C10. \<open>Wait\<close> sets the flag \<open>waited\<close> before it calls the platform wait, and nothing
  clears it: after a call of \<open>Wait\<close>, whatever the platform wait returned, the flag is
  true, it is still true after any further sequence of calls of \<open>Start\<close>, \<open>Wait\<close>,
  \<open>Run\<close> and \<open>Output\<close> (with options that do not touch the flag), and a call of
  \<open>Wait\<close> after that returns the error "exec: Wait was already called" and does nothing.
\<close>

theorem waited_forever:
  assumes "\<forall>cl\<in>set cls. \<forall>opt\<in>set (call_opts cl). keeps_waited opt"
  shows "waited (fst (snd (Wait p c w)))
       \<and> (case do_calls p cls (snd (Wait p c w)) of (c', w') \<Rightarrow>
            waited c' \<and> Wait p c' w' = (Some ''exec: Wait was already called'', c', w'))"
proof -
  have 1: "waited (fst (snd (Wait p c w)))" by (rule Wait_sets_waited)
  have "waited (fst (do_calls p cls (snd (Wait p c w))))"
    using do_calls_keeps_waited [OF assms] 1 by simp
  then show ?thesis using 1 by (simp add: case_prod_unfold Wait_unfold)
qed

theorem waited_forever_witness:
  "keeps_waited (Dir ''/tmp'') \<and> keeps_waited (Setenv ''K'' ''v'')
   \<and> waited (fst (snd (Wait example_platform (Command example_platform ''/bin/false'' []) example_world)))
   \<and> (case do_calls example_platform [CallRun [Dir ''/tmp''], CallWait, CallOutput [Setenv ''K'' ''v'']]
              (snd (Wait example_platform (Command example_platform ''/bin/false'' []) example_world)) of
         (c', w') \<Rightarrow>
            waited c' \<and> Wait example_platform c' w' = (Some ''exec: Wait was already called'', c', w'))"
  using waited_forever [of "[CallRun [Dir ''/tmp''], CallWait, CallOutput [Setenv ''K'' ''v'']]"
      example_platform "Command example_platform ''/bin/false'' []" example_world]
  by (simp add: keeps_waited_def Dir_def Setenv_def Setenv_call_def)

subsection \<open>Start\<close>

lemma applyOptions_all_succeed:
  "all_succeed c opts \<Longrightarrow> applyOptions c opts = (None, apply_all c opts)"
  by (induction opts arbitrary: c) (auto simp add: apply_all_def split: prod.split option.split)

lemma applyOptions_first_failure:
  "all_succeed c pre \<Longrightarrow> f (apply_all c pre) = (Some e, cb) \<Longrightarrow>
   applyOptions c (pre @ f # post) = (Some e, cb)"
  by (simp add: applyOptions_append applyOptions_all_succeed)

lemma applyOptions_fails:
  "\<not> all_succeed c opts \<Longrightarrow> fst (applyOptions c opts) \<noteq> None"
  by (induction opts arbitrary: c) (auto split: prod.split option.split)

text \<open>
  C5. On a command made by \<open>Command\<close>, \<open>Start\<close> first runs the default options, which
  give the command an environment when it has none, then the options of the caller from
  left to right, each on the command as the one before left it. When all of them
  succeed, the before-hook, if there is one, runs on the command they leave, and when
  there is no hook or the hook succeeds the process-creation primitive is called with
  that command; when the hook fails \<open>Start\<close> returns its error and the only event is the
  call of the hook. When an option fails after the options \<open>pre\<close> before it succeeded,
  \<open>Start\<close> returns its error and the command as that option left it, whatever options
  \<open>post\<close> follow, and the world is unchanged. The process-creation primitive is called
  exactly when every option and the hook succeeded.
\<close>

theorem Start_order:
  assumes "initalised c"
  shows "cmd_Env (osCmd (snd (applyDefaultOptions p c)))
           = Some (case cmd_Env (osCmd c) of None \<Rightarrow> os_Environ p | Some env \<Rightarrow> env)
       \<and> (all_succeed (snd (applyDefaultOptions p c)) opts \<longrightarrow>
            (case before (apply_all (snd (applyDefaultOptions p c)) opts) of
               None \<Rightarrow>
                 Start p c opts w
                   = (os_Start p (osCmd (apply_all (snd (applyDefaultOptions p c)) opts)),
                      apply_all (snd (applyDefaultOptions p c)) opts,
                      log (ProcStart (osCmd (apply_all (snd (applyDefaultOptions p c)) opts))) w)
             | Some fn \<Rightarrow>
                 (case fn (osCmd (apply_all (snd (applyDefaultOptions p c)) opts)) of
                    (Some err, x) \<Rightarrow>
                      Start p c opts w
                        = (Some err, (apply_all (snd (applyDefaultOptions p c)) opts)\<lparr>osCmd := x\<rparr>,
                           log BeforeHook w)
                  | (None, x) \<Rightarrow>
                      Start p c opts w
                        = (os_Start p x, (apply_all (snd (applyDefaultOptions p c)) opts)\<lparr>osCmd := x\<rparr>,
                           log (ProcStart x) (log BeforeHook w)))))
       \<and> (all_succeed (snd (applyDefaultOptions p c)) pre \<longrightarrow>
            f (apply_all (snd (applyDefaultOptions p c)) pre) = (Some e, cb) \<longrightarrow>
            Start p c (pre @ f # post) w = (Some e, cb, w))
       \<and> (list_ex is_ProcStart (new_events w (snd (snd (Start p c opts w))))
            \<longleftrightarrow> (all_succeed (snd (applyDefaultOptions p c)) opts
                 \<and> (case before (apply_all (snd (applyDefaultOptions p c)) opts) of
                      None \<Rightarrow> True
                    | Some fn \<Rightarrow> fst (fn (osCmd (apply_all (snd (applyDefaultOptions p c)) opts))) = None)))
       \<and> (\<not> all_succeed (snd (applyDefaultOptions p c)) opts \<longrightarrow>
            fst (Start p c opts w) \<noteq> None \<and> snd (snd (Start p c opts w)) = w)"
proof -
  let ?c0 = "snd (applyDefaultOptions p c)"
  have env: "cmd_Env (osCmd ?c0) = Some (case cmd_Env (osCmd c) of None \<Rightarrow> os_Environ p | Some env \<Rightarrow> env)"
    by (auto simp add: applyDefaultOptions_def)
  have ok: "all_succeed ?c0 opts \<longrightarrow>
            (case before (apply_all ?c0 opts) of
               None \<Rightarrow>
                 Start p c opts w
                   = (os_Start p (osCmd (apply_all ?c0 opts)), apply_all ?c0 opts,
                      log (ProcStart (osCmd (apply_all ?c0 opts))) w)
             | Some fn \<Rightarrow>
                 (case fn (osCmd (apply_all ?c0 opts)) of
                    (Some err, x) \<Rightarrow>
                      Start p c opts w
                        = (Some err, (apply_all ?c0 opts)\<lparr>osCmd := x\<rparr>, log BeforeHook w)
                  | (None, x) \<Rightarrow>
                      Start p c opts w
                        = (os_Start p x, (apply_all ?c0 opts)\<lparr>osCmd := x\<rparr>,
                           log (ProcStart x) (log BeforeHook w))))"
    by (simp add: Start_unfold [OF assms] applyOptions_all_succeed split: prod.split option.split)
  have stop: "all_succeed ?c0 pre \<longrightarrow> f (apply_all ?c0 pre) = (Some e, cb) \<longrightarrow>
            Start p c (pre @ f # post) w = (Some e, cb, w)"
    by (simp add: Start_unfold [OF assms] applyOptions_first_failure)
  have fail: "\<not> all_succeed ?c0 opts \<longrightarrow>
            fst (Start p c opts w) \<noteq> None \<and> snd (snd (Start p c opts w)) = w"
    using applyOptions_fails [of ?c0 opts]
    by (auto simp add: Start_unfold [OF assms] split: prod.split option.split)
  have ev: "list_ex is_ProcStart (new_events w (snd (snd (Start p c opts w))))
            \<longleftrightarrow> (all_succeed ?c0 opts
                 \<and> (case before (apply_all ?c0 opts) of
                      None \<Rightarrow> True
                    | Some fn \<Rightarrow> fst (fn (osCmd (apply_all ?c0 opts))) = None))"
  proof (cases "all_succeed ?c0 opts")
    case True
    then show ?thesis
      by (simp add: Start_unfold [OF assms] applyOptions_all_succeed split: prod.split option.split)
  next
    case False
    with fail show ?thesis by simp
  qed
  from env ok stop ev fail show ?thesis by blast
qed

theorem Start_order_witness:
  "Start example_platform (Command example_platform ''git'' [''status''])
        ([Dir ''/tmp'', Stdout (Some os_Stdout)] @ Stdout (Some (Handle 1)) # [Dir ''/never''])
        example_world
      = (Some ''exec: Stdout already set'',
         (Command example_platform ''git'' [''status''])
           \<lparr>osCmd := (exec_Command example_platform ''git'' [''status''])
              \<lparr>cmd_Env := Some (os_Environ example_platform), cmd_Dir := ''/tmp'',
               cmd_Stdout := Some os_Stdout\<rparr>\<rparr>,
         example_world)
   \<and> new_events example_world
        (snd (snd (Start example_platform (Command example_platform ''git'' [''status''])
           [Dir ''/tmp'', BeforeFunc (Some quiet_hook)] example_world)))
      = [BeforeHook,
         ProcStart ((exec_Command example_platform ''git'' [''status''])
           \<lparr>cmd_Env := Some (os_Environ example_platform), cmd_Dir := ''/tmp''\<rparr>)]
   \<and> new_events example_world
        (snd (snd (Start example_platform (Command example_platform ''git'' [''status''])
           [Dir ''/tmp'', BeforeFunc (Some failing_hook)] example_world)))
      = [BeforeHook]"
proof -
  let ?c = "Command example_platform ''git'' [''status'']"
  let ?d = "snd (applyDefaultOptions example_platform ?c)"
  let ?ca = "?c\<lparr>osCmd := (exec_Command example_platform ''git'' [''status''])
              \<lparr>cmd_Env := Some (os_Environ example_platform), cmd_Dir := ''/tmp'',
               cmd_Stdout := Some os_Stdout\<rparr>\<rparr>"
  have i: "initalised ?c" by (simp add: Command_def)
  have pre: "all_succeed ?d [Dir ''/tmp'', Stdout (Some os_Stdout)]
      \<and> apply_all ?d [Dir ''/tmp'', Stdout (Some os_Stdout)] = ?ca"
    by (simp add: applyDefaultOptions_def apply_all_def Dir_def Stdout_def Command_def exec_Command_def)
  have f: "Stdout (Some (Handle 1)) ?ca = (Some ''exec: Stdout already set'', ?ca)"
    by (simp add: Stdout_def)
  note T = Start_order [OF i, where p = example_platform and w = example_world]
  have 1: "Start example_platform ?c
        ([Dir ''/tmp'', Stdout (Some os_Stdout)] @ Stdout (Some (Handle 1)) # [Dir ''/never''])
        example_world = (Some ''exec: Stdout already set'', ?ca, example_world)"
    using T [where pre = "[Dir ''/tmp'', Stdout (Some os_Stdout)]" and f = "Stdout (Some (Handle 1))"
        and post = "[Dir ''/never'']" and e = "''exec: Stdout already set''" and cb = ?ca
        and opts = "[]", THEN conjunct2, THEN conjunct2, THEN conjunct1] pre f
    by simp
  have q: "all_succeed ?d [Dir ''/tmp'', BeforeFunc (Some quiet_hook)]
      \<and> apply_all ?d [Dir ''/tmp'', BeforeFunc (Some quiet_hook)]
        = ?c\<lparr>osCmd := (exec_Command example_platform ''git'' [''status''])
              \<lparr>cmd_Env := Some (os_Environ example_platform), cmd_Dir := ''/tmp''\<rparr>,
             before := Some quiet_hook\<rparr>"
    by (simp add: applyDefaultOptions_def apply_all_def Dir_def BeforeFunc_def Command_def exec_Command_def)
  have 2: "new_events example_world
        (snd (snd (Start example_platform ?c
           [Dir ''/tmp'', BeforeFunc (Some quiet_hook)] example_world)))
      = [BeforeHook,
         ProcStart ((exec_Command example_platform ''git'' [''status''])
           \<lparr>cmd_Env := Some (os_Environ example_platform), cmd_Dir := ''/tmp''\<rparr>)]"
    using T [where opts = "[Dir ''/tmp'', BeforeFunc (Some quiet_hook)]" and pre = "[]"
        and f = "Dir []" and post = "[]" and e = "[]" and cb = ?c,
        THEN conjunct2, THEN conjunct1] q
    by (simp add: quiet_hook_def)
  have r: "all_succeed ?d [Dir ''/tmp'', BeforeFunc (Some failing_hook)]
      \<and> apply_all ?d [Dir ''/tmp'', BeforeFunc (Some failing_hook)]
        = ?c\<lparr>osCmd := (exec_Command example_platform ''git'' [''status''])
              \<lparr>cmd_Env := Some (os_Environ example_platform), cmd_Dir := ''/tmp''\<rparr>,
             before := Some failing_hook\<rparr>"
    by (simp add: applyDefaultOptions_def apply_all_def Dir_def BeforeFunc_def Command_def exec_Command_def)
  have 3: "new_events example_world
        (snd (snd (Start example_platform ?c
           [Dir ''/tmp'', BeforeFunc (Some failing_hook)] example_world)))
      = [BeforeHook]"
    using T [where opts = "[Dir ''/tmp'', BeforeFunc (Some failing_hook)]" and pre = "[]"
        and f = "Dir []" and post = "[]" and e = "[]" and cb = ?c,
        THEN conjunct2, THEN conjunct1] r
    by (simp add: failing_hook_def)
  from 1 2 3 show ?thesis by simp
qed

subsection \<open>System\<close>

lemma System_defaults:
  "applyOptions (snd (applyDefaultOptions p (Command p ''/bin/sh'' (''-c'' # Fields command))))
     [Stdin (Some os_Stdin), Stdout (Some os_Stdout), Stderr (Some os_Stderr)]
   = (None, (Command p ''/bin/sh'' (''-c'' # Fields command))\<lparr>osCmd := shell_spec p command\<rparr>)"
  by (simp add: applyDefaultOptions_def Command_def exec_Command_def Stdin_def Stdout_def
      Stderr_def shell_spec_def)

lemma System_no_options:
  "System p command [] w =
     (case os_Start p (shell_spec p command) of
        Some err \<Rightarrow>
          (Some err, (Command p ''/bin/sh'' (''-c'' # Fields command))\<lparr>osCmd := shell_spec p command\<rparr>,
           log (ProcStart (shell_spec p command)) w)
      | None \<Rightarrow>
          (fst (os_Wait p (shell_spec p command)),
           (Command p ''/bin/sh'' (''-c'' # Fields command))\<lparr>osCmd := shell_spec p command, waited := True\<rparr>,
           log ProcWait (log (ProcStart (shell_spec p command)) w)))"
proof -
  have i: "initalised (Command p ''/bin/sh'' (''-c'' # Fields command))"
    by (simp add: Command_def)
  have s: "Start p (Command p ''/bin/sh'' (''-c'' # Fields command))
             [Stdin (Some os_Stdin), Stdout (Some os_Stdout), Stderr (Some os_Stderr)] w
           = (os_Start p (shell_spec p command),
              (Command p ''/bin/sh'' (''-c'' # Fields command))\<lparr>osCmd := shell_spec p command\<rparr>,
              log (ProcStart (shell_spec p command)) w)"
    by (simp only: Start_unfold [OF i] System_defaults) (simp add: Command_def)
  show ?thesis
    by (simp add: System_def Run_def s Wait_unfold split: option.split)
       (simp add: Command_def cmd_Wait_def shell_spec_def case_prod_unfold)
qed

lemma System_one_option:
  "System p command [opt] w =
     (case opt ((Command p ''/bin/sh'' (''-c'' # Fields command))\<lparr>osCmd := shell_spec p command\<rparr>) of
        (Some err, c') \<Rightarrow> (Some err, c', w)
      | (None, c') \<Rightarrow>
          Run p (Command p ''/bin/sh'' (''-c'' # Fields command))
            [Stdin (Some os_Stdin), Stdout (Some os_Stdout), Stderr (Some os_Stderr), opt] w)"
proof -
  have i: "initalised (Command p ''/bin/sh'' (''-c'' # Fields command))"
    by (simp add: Command_def)
  have a: "applyOptions (snd (applyDefaultOptions p (Command p ''/bin/sh'' (''-c'' # Fields command))))
             ([Stdin (Some os_Stdin), Stdout (Some os_Stdout), Stderr (Some os_Stderr)] @ [opt])
           = (case opt ((Command p ''/bin/sh'' (''-c'' # Fields command))\<lparr>osCmd := shell_spec p command\<rparr>) of
                (Some err, c') \<Rightarrow> (Some err, c')
              | (None, c') \<Rightarrow> (None, c'))"
    by (simp only: applyOptions_append System_defaults)
       (simp split: prod.split option.split)
  show ?thesis
    using a
    by (auto simp add: System_def Run_def Start_unfold [OF i] split: prod.split option.split)
qed

lemma System_events:
  "events (snd (snd (System p command [] w)))
     = events w @ ProcStart (shell_spec p command)
         # (if os_Start p (shell_spec p command) = None then [ProcWait] else [])"
  by (simp add: System_no_options split: option.split)

text \<open>
  C1. With no option of the caller, \<open>System\<close> creates the process with the standard
  input, output and error of the calling process. A \<open>Stdin\<close>, \<open>Stdout\<close> or \<open>Stderr\<close>
  option of the caller does not replace that binding: it is applied after the default of
  the same stream, so it fails with "already set", \<open>System\<close> returns that error, the
  binding is still the default one and the process is not created (the world is
  unchanged).
\<close>

theorem System_stream_options_rejected:
  "events (snd (snd (System p command [] w)))
     = events w @ ProcStart (shell_spec p command)
         # (if os_Start p (shell_spec p command) = None then [ProcWait] else [])
   \<and> cmd_Stdin (shell_spec p command) = Some os_Stdin
   \<and> cmd_Stdout (shell_spec p command) = Some os_Stdout
   \<and> cmd_Stderr (shell_spec p command) = Some os_Stderr
   \<and> System p command [Stdin r] w
     = (Some ''exec: Stdin already set'',
        (Command p ''/bin/sh'' (''-c'' # Fields command))\<lparr>osCmd := shell_spec p command\<rparr>, w)
   \<and> System p command [Stdout wr] w
     = (Some ''exec: Stdout already set'',
        (Command p ''/bin/sh'' (''-c'' # Fields command))\<lparr>osCmd := shell_spec p command\<rparr>, w)
   \<and> System p command [Stderr wr'] w
     = (Some ''exec: Stderr already set'',
        (Command p ''/bin/sh'' (''-c'' # Fields command))\<lparr>osCmd := shell_spec p command\<rparr>, w)"
  by (simp add: System_one_option System_events)
     (simp add: Stdin_def Stdout_def Stderr_def shell_spec_def)

text \<open>
  C4. \<open>System\<close> creates the process \<open>/bin/sh\<close> with the arguments \<open>-c\<close> and then the
  tokens of the command string, in order. The tokens are those of a split at white
  space and nothing else (quotes and backslashes are bytes like any other): white space
  at the head of the string is skipped, otherwise the first token is the longest prefix
  in which no white space character starts, and the split goes on after it. Every
  token is non-empty and holds no white space character, and a token ends at the end of
  the string or before a white space character.
\<close>

theorem System_splits_on_white_space:
  "events (snd (snd (System p command [] w)))
     = events w @ ProcStart (shell_spec p command)
         # (if os_Start p (shell_spec p command) = None then [ProcWait] else [])
   \<and> cmd_Path (shell_spec p command) = ''/bin/sh''
   \<and> cmd_Args (shell_spec p command) = ''/bin/sh'' # ''-c'' # Fields command
   \<and> (\<forall>t\<in>set (Fields command). t \<noteq> [] \<and> (\<forall>i<length t. space_width (drop i t) = 0))
   \<and> Fields [] = []
   \<and> (0 < space_width s \<longrightarrow> Fields s = Fields (drop (space_width s) s))
   \<and> (s \<noteq> [] \<and> space_width s = 0 \<longrightarrow>
        Fields s = fst (token s) # Fields (snd (token s))
        \<and> fst (token s) \<noteq> []
        \<and> fst (token s) @ snd (token s) = s
        \<and> (\<forall>i<length (fst (token s)). space_width (drop i s) = 0)
        \<and> (snd (token s) = [] \<or> 0 < space_width (snd (token s))))"
proof -
  have sp: "cmd_Path (shell_spec p command) = ''/bin/sh''
      \<and> cmd_Args (shell_spec p command) = ''/bin/sh'' # ''-c'' # Fields command"
    by (simp add: shell_spec_def)
  have tk: "\<forall>t\<in>set (Fields command). t \<noteq> [] \<and> (\<forall>i<length t. space_width (drop i t) = 0)"
    using Fields_tokens by blast
  have skip: "0 < space_width s \<longrightarrow> Fields s = Fields (drop (space_width s) s)"
    by (simp add: Fields_space)
  have tok: "s \<noteq> [] \<and> space_width s = 0 \<longrightarrow>
        Fields s = fst (token s) # Fields (snd (token s))
        \<and> fst (token s) \<noteq> []
        \<and> fst (token s) @ snd (token s) = s
        \<and> (\<forall>i<length (fst (token s)). space_width (drop i s) = 0)
        \<and> (snd (token s) = [] \<or> 0 < space_width (snd (token s)))"
    using token_rest [of s]
    by (simp add: Fields_token token_nonempty token_append token_no_space)
  from System_events [of p command w] sp tk skip tok show ?thesis by simp
qed

lemma Fields_echo:
  "Fields (''echo '' @ [CHR 0x22] @ ''a  b'' @ [CHR 0x22, CHR 0x09])
     = [''echo'', [CHR 0x22, CHR ''a''], [CHR ''b'', CHR 0x22]]"
  by (simp add: Fields.simps space_width_def White_Space_def HasPrefix_def)

theorem System_splits_on_white_space_witness:
  "events (snd (snd (System example_platform (''echo '' @ [CHR 0x22] @ ''a  b'' @ [CHR 0x22, CHR 0x09])
       [] example_world)))
     = [ProcStart (shell_spec example_platform (''echo '' @ [CHR 0x22] @ ''a  b'' @ [CHR 0x22, CHR 0x09])),
        ProcWait]
   \<and> cmd_Args (shell_spec example_platform (''echo '' @ [CHR 0x22] @ ''a  b'' @ [CHR 0x22, CHR 0x09]))
     = [''/bin/sh'', ''-c'', ''echo'', [CHR 0x22, CHR ''a''], [CHR ''b'', CHR 0x22]]
   \<and> Fields '' b'' = Fields ''b''"
proof -
  note T = System_splits_on_white_space [where p = example_platform and w = example_world
      and command = "''echo '' @ [CHR 0x22] @ ''a  b'' @ [CHR 0x22, CHR 0x09]"]
  have st: "os_Start example_platform x = None" for x
    by (simp add: example_platform_def)
  have ev: "events example_world = []"
    by (simp add: example_world_def)
  have 1: "events (snd (snd (System example_platform (''echo '' @ [CHR 0x22] @ ''a  b'' @ [CHR 0x22, CHR 0x09])
       [] example_world)))
     = [ProcStart (shell_spec example_platform (''echo '' @ [CHR 0x22] @ ''a  b'' @ [CHR 0x22, CHR 0x09])),
        ProcWait]"
    using T [of "[]"] by (simp add: st ev)
  have 2: "cmd_Args (shell_spec example_platform (''echo '' @ [CHR 0x22] @ ''a  b'' @ [CHR 0x22, CHR 0x09]))
     = [''/bin/sh'', ''-c'', ''echo'', [CHR 0x22, CHR ''a''], [CHR ''b'', CHR 0x22]]"
    using T [of "[]"] Fields_echo by simp
  have b: "space_width '' b'' = 1"
    by (simp add: space_width_def White_Space_def HasPrefix_def)
  have 3: "Fields '' b'' = Fields ''b''"
    using T [of "'' b''"] b by simp
  from 1 2 3 show ?thesis by simp
qed

subsection \<open>Options that set a field once\<close>

text \<open>
  An option applied with nil to a field that is unset leaves the field unset, so the same
  option applied again succeeds: here \<open>Stdout\<close> is applied with nil and then binds a
  stream, is applied twice with nil without an error, and each of the other four options
  is applied with nil and then sets its field. This is a counterexample to C6 as it is
  stated.
\<close>

theorem nil_stream_is_not_set:
  "Stdout (Some (Handle 1)) (snd (Stdout None (Command example_platform ''git'' [''status''])))
     = (None, (Command example_platform ''git'' [''status''])
          \<lparr>osCmd := (exec_Command example_platform ''git'' [''status''])\<lparr>cmd_Stdout := Some (Handle 1)\<rparr>\<rparr>)
   \<and> fst (Stdout None (snd (Stdout None (Command example_platform ''git'' [''status''])))) = None
   \<and> fst (Stdin (Some (Handle 1)) (snd (Stdin None (Command example_platform ''git'' [''status''])))) = None
   \<and> fst (Stderr (Some (Handle 1)) (snd (Stderr None (Command example_platform ''git'' [''status''])))) = None
   \<and> fst (BeforeFunc (Some failing_hook)
          (snd (BeforeFunc None (Command example_platform ''git'' [''status''])))) = None
   \<and> fst (AfterFunc (Some failing_hook)
          (snd (AfterFunc None (Command example_platform ''git'' [''status''])))) = None"
  by (simp add: Stdin_def Stdout_def Stderr_def BeforeFunc_def AfterFunc_def Command_def
      exec_Command_def)

text \<open>
  C6, amended. Each of \<open>Stdin\<close>, \<open>Stdout\<close>, \<open>Stderr\<close>, \<open>BeforeFunc\<close> and \<open>AfterFunc\<close> sets
  its field when the field is unset and fails with its "already set" error, leaving the
  command unchanged, when the field is set. So when one of them has been applied with a
  stream or a hook that is not nil, applying the same option again, with any value,
  fails with that error and leaves the command unchanged, and the field still holds the
  value of the first application. Applied with nil to a field that is unset, an option
  returns no error and leaves the field unset, and a later application sets the field.
\<close>

theorem options_write_once:
  assumes "v \<noteq> None" and "fn \<noteq> None"
  shows "((cmd_Stdin (osCmd c) = None \<longrightarrow>
             Stdin v c = (None, c\<lparr>osCmd := (osCmd c)\<lparr>cmd_Stdin := v\<rparr>\<rparr>)
             \<and> cmd_Stdin (osCmd (snd (Stdin v' (snd (Stdin v c))))) = v
             \<and> fst (Stdin None c) = None
             \<and> cmd_Stdin (osCmd (snd (Stdin None c))) = None
             \<and> Stdin v' (snd (Stdin None c)) = (None, c\<lparr>osCmd := (osCmd c)\<lparr>cmd_Stdin := v'\<rparr>\<rparr>))
          \<and> (cmd_Stdin (osCmd c) \<noteq> None \<longrightarrow>
               Stdin v' c = (Some ''exec: Stdin already set'', c))
          \<and> Stdin v' (snd (Stdin v c)) = (Some ''exec: Stdin already set'', snd (Stdin v c)))
       \<and> ((cmd_Stdout (osCmd c) = None \<longrightarrow>
             Stdout v c = (None, c\<lparr>osCmd := (osCmd c)\<lparr>cmd_Stdout := v\<rparr>\<rparr>)
             \<and> cmd_Stdout (osCmd (snd (Stdout v' (snd (Stdout v c))))) = v
             \<and> fst (Stdout None c) = None
             \<and> cmd_Stdout (osCmd (snd (Stdout None c))) = None
             \<and> Stdout v' (snd (Stdout None c)) = (None, c\<lparr>osCmd := (osCmd c)\<lparr>cmd_Stdout := v'\<rparr>\<rparr>))
          \<and> (cmd_Stdout (osCmd c) \<noteq> None \<longrightarrow>
               Stdout v' c = (Some ''exec: Stdout already set'', c))
          \<and> Stdout v' (snd (Stdout v c)) = (Some ''exec: Stdout already set'', snd (Stdout v c)))
       \<and> ((cmd_Stderr (osCmd c) = None \<longrightarrow>
             Stderr v c = (None, c\<lparr>osCmd := (osCmd c)\<lparr>cmd_Stderr := v\<rparr>\<rparr>)
             \<and> cmd_Stderr (osCmd (snd (Stderr v' (snd (Stderr v c))))) = v
             \<and> fst (Stderr None c) = None
             \<and> cmd_Stderr (osCmd (snd (Stderr None c))) = None
             \<and> Stderr v' (snd (Stderr None c)) = (None, c\<lparr>osCmd := (osCmd c)\<lparr>cmd_Stderr := v'\<rparr>\<rparr>))
          \<and> (cmd_Stderr (osCmd c) \<noteq> None \<longrightarrow>
               Stderr v' c = (Some ''exec: Stderr already set'', c))
          \<and> Stderr v' (snd (Stderr v c)) = (Some ''exec: Stderr already set'', snd (Stderr v c)))
       \<and> ((before c = None \<longrightarrow>
             BeforeFunc fn c = (None, c\<lparr>before := fn\<rparr>)
             \<and> before (snd (BeforeFunc fn' (snd (BeforeFunc fn c)))) = fn
             \<and> fst (BeforeFunc None c) = None
             \<and> before (snd (BeforeFunc None c)) = None
             \<and> BeforeFunc fn' (snd (BeforeFunc None c)) = (None, c\<lparr>before := fn'\<rparr>))
          \<and> (before c \<noteq> None \<longrightarrow>
               BeforeFunc fn' c = (Some ''exec: BeforeFunc already set'', c))
          \<and> BeforeFunc fn' (snd (BeforeFunc fn c))
               = (Some ''exec: BeforeFunc already set'', snd (BeforeFunc fn c)))
       \<and> ((after c = None \<longrightarrow>
             AfterFunc fn c = (None, c\<lparr>after := fn\<rparr>)
             \<and> after (snd (AfterFunc fn' (snd (AfterFunc fn c)))) = fn
             \<and> fst (AfterFunc None c) = None
             \<and> after (snd (AfterFunc None c)) = None
             \<and> AfterFunc fn' (snd (AfterFunc None c)) = (None, c\<lparr>after := fn'\<rparr>))
          \<and> (after c \<noteq> None \<longrightarrow>
               AfterFunc fn' c = (Some ''exec: AfterFunc already set'', c))
          \<and> AfterFunc fn' (snd (AfterFunc fn c))
               = (Some ''exec: AfterFunc already set'', snd (AfterFunc fn c)))"
proof -
  have i: "(cmd_Stdin (osCmd c) = None \<longrightarrow>
             Stdin v c = (None, c\<lparr>osCmd := (osCmd c)\<lparr>cmd_Stdin := v\<rparr>\<rparr>)
             \<and> cmd_Stdin (osCmd (snd (Stdin v' (snd (Stdin v c))))) = v
             \<and> fst (Stdin None c) = None
             \<and> cmd_Stdin (osCmd (snd (Stdin None c))) = None
             \<and> Stdin v' (snd (Stdin None c)) = (None, c\<lparr>osCmd := (osCmd c)\<lparr>cmd_Stdin := v'\<rparr>\<rparr>))
          \<and> (cmd_Stdin (osCmd c) \<noteq> None \<longrightarrow>
               Stdin v' c = (Some ''exec: Stdin already set'', c))
          \<and> Stdin v' (snd (Stdin v c)) = (Some ''exec: Stdin already set'', snd (Stdin v c))"
    using assms(1) by (auto simp add: Stdin_def)
  have o: "(cmd_Stdout (osCmd c) = None \<longrightarrow>
             Stdout v c = (None, c\<lparr>osCmd := (osCmd c)\<lparr>cmd_Stdout := v\<rparr>\<rparr>)
             \<and> cmd_Stdout (osCmd (snd (Stdout v' (snd (Stdout v c))))) = v
             \<and> fst (Stdout None c) = None
             \<and> cmd_Stdout (osCmd (snd (Stdout None c))) = None
             \<and> Stdout v' (snd (Stdout None c)) = (None, c\<lparr>osCmd := (osCmd c)\<lparr>cmd_Stdout := v'\<rparr>\<rparr>))
          \<and> (cmd_Stdout (osCmd c) \<noteq> None \<longrightarrow>
               Stdout v' c = (Some ''exec: Stdout already set'', c))
          \<and> Stdout v' (snd (Stdout v c)) = (Some ''exec: Stdout already set'', snd (Stdout v c))"
    using assms(1) by (auto simp add: Stdout_def)
  have e: "(cmd_Stderr (osCmd c) = None \<longrightarrow>
             Stderr v c = (None, c\<lparr>osCmd := (osCmd c)\<lparr>cmd_Stderr := v\<rparr>\<rparr>)
             \<and> cmd_Stderr (osCmd (snd (Stderr v' (snd (Stderr v c))))) = v
             \<and> fst (Stderr None c) = None
             \<and> cmd_Stderr (osCmd (snd (Stderr None c))) = None
             \<and> Stderr v' (snd (Stderr None c)) = (None, c\<lparr>osCmd := (osCmd c)\<lparr>cmd_Stderr := v'\<rparr>\<rparr>))
          \<and> (cmd_Stderr (osCmd c) \<noteq> None \<longrightarrow>
               Stderr v' c = (Some ''exec: Stderr already set'', c))
          \<and> Stderr v' (snd (Stderr v c)) = (Some ''exec: Stderr already set'', snd (Stderr v c))"
    using assms(1) by (auto simp add: Stderr_def)
  have b: "(before c = None \<longrightarrow>
             BeforeFunc fn c = (None, c\<lparr>before := fn\<rparr>)
             \<and> before (snd (BeforeFunc fn' (snd (BeforeFunc fn c)))) = fn
             \<and> fst (BeforeFunc None c) = None
             \<and> before (snd (BeforeFunc None c)) = None
             \<and> BeforeFunc fn' (snd (BeforeFunc None c)) = (None, c\<lparr>before := fn'\<rparr>))
          \<and> (before c \<noteq> None \<longrightarrow>
               BeforeFunc fn' c = (Some ''exec: BeforeFunc already set'', c))
          \<and> BeforeFunc fn' (snd (BeforeFunc fn c))
               = (Some ''exec: BeforeFunc already set'', snd (BeforeFunc fn c))"
    using assms(2) by (auto simp add: BeforeFunc_def)
  have a: "(after c = None \<longrightarrow>
             AfterFunc fn c = (None, c\<lparr>after := fn\<rparr>)
             \<and> after (snd (AfterFunc fn' (snd (AfterFunc fn c)))) = fn
             \<and> fst (AfterFunc None c) = None
             \<and> after (snd (AfterFunc None c)) = None
             \<and> AfterFunc fn' (snd (AfterFunc None c)) = (None, c\<lparr>after := fn'\<rparr>))
          \<and> (after c \<noteq> None \<longrightarrow>
               AfterFunc fn' c = (Some ''exec: AfterFunc already set'', c))
          \<and> AfterFunc fn' (snd (AfterFunc fn c))
               = (Some ''exec: AfterFunc already set'', snd (AfterFunc fn c))"
    using assms(2) by (auto simp add: AfterFunc_def)
  from i o e b a show ?thesis by blast
qed

theorem options_write_once_witness:
  "Stdin (Some (Handle 2)) (snd (Stdin (Some os_Stdin) (Command example_platform ''git'' [''status''])))
     = (Some ''exec: Stdin already set'',
        (Command example_platform ''git'' [''status''])
          \<lparr>osCmd := (exec_Command example_platform ''git'' [''status''])\<lparr>cmd_Stdin := Some os_Stdin\<rparr>\<rparr>)
   \<and> Stdout (Some (Handle 2)) (snd (Stdout (Some os_Stdin) (Command example_platform ''git'' [''status''])))
     = (Some ''exec: Stdout already set'',
        (Command example_platform ''git'' [''status''])
          \<lparr>osCmd := (exec_Command example_platform ''git'' [''status''])\<lparr>cmd_Stdout := Some os_Stdin\<rparr>\<rparr>)
   \<and> Stderr (Some (Handle 2)) (snd (Stderr (Some os_Stdin) (Command example_platform ''git'' [''status''])))
     = (Some ''exec: Stderr already set'',
        (Command example_platform ''git'' [''status''])
          \<lparr>osCmd := (exec_Command example_platform ''git'' [''status''])\<lparr>cmd_Stderr := Some os_Stdin\<rparr>\<rparr>)
   \<and> BeforeFunc (Some quiet_hook)
         (snd (BeforeFunc (Some failing_hook) (Command example_platform ''git'' [''status''])))
     = (Some ''exec: BeforeFunc already set'',
        (Command example_platform ''git'' [''status''])\<lparr>before := Some failing_hook\<rparr>)
   \<and> AfterFunc (Some quiet_hook)
         (snd (AfterFunc (Some failing_hook) (Command example_platform ''git'' [''status''])))
     = (Some ''exec: AfterFunc already set'',
        (Command example_platform ''git'' [''status''])\<lparr>after := Some failing_hook\<rparr>)"
  using options_write_once [where v = "Some os_Stdin" and fn = "Some failing_hook"
      and c = "Command example_platform ''git'' [''status'']" and v' = "Some (Handle 2)"
      and fn' = "Some quiet_hook"]
  by (simp add: Stdin_def Stdout_def Stderr_def BeforeFunc_def AfterFunc_def Command_def
      exec_Command_def)

subsection \<open>Setenv\<close>

lemma HasPrefix_append [simp]: "HasPrefix (pre @ s) pre"
  by (simp add: HasPrefix_def)

lemma replace_first_None:
  "replace_first key kv env = None \<longleftrightarrow> filter (\<lambda>e. HasPrefix e key) env = []"
  by (induction env) auto

lemma replace_first_Some:
  "replace_first key kv env = Some env' \<Longrightarrow>
   env' = takeWhile (\<lambda>e. \<not> HasPrefix e key) env @ kv # tl (dropWhile (\<lambda>e. \<not> HasPrefix e key) env)
   \<and> dropWhile (\<lambda>e. \<not> HasPrefix e key) env \<noteq> []"
  by (induction env arbitrary: env') (auto split: if_splits)

lemma setenv_closed_form:
  "setenv key val env =
     takeWhile (\<lambda>e. \<not> HasPrefix e (key @ ''='')) env @ (key @ ''='' @ val)
       # tl (dropWhile (\<lambda>e. \<not> HasPrefix e (key @ ''='')) env)"
proof (cases "replace_first (key @ ''='') (key @ ''='' @ val) env")
  case None
  then have "filter (\<lambda>e. HasPrefix e (key @ ''='')) env = []"
    by (simp add: replace_first_None)
  then have a: "\<forall>e\<in>set env. \<not> HasPrefix e (key @ ''='')"
    by (simp add: filter_empty_conv)
  have t: "takeWhile (\<lambda>e. \<not> HasPrefix e (key @ ''='')) env = env"
    using a by (simp add: takeWhile_eq_all_conv)
  have d: "dropWhile (\<lambda>e. \<not> HasPrefix e (key @ ''='')) env = []"
    using a by simp
  have "setenv key val env = env @ [key @ ''='' @ val]"
    unfolding setenv_def None by simp
  then show ?thesis unfolding t d by simp
next
  case (Some env')
  from replace_first_Some [OF Some] have
    "env' = takeWhile (\<lambda>e. \<not> HasPrefix e (key @ ''='')) env @ (key @ ''='' @ val)
       # tl (dropWhile (\<lambda>e. \<not> HasPrefix e (key @ ''='')) env)"
    by blast
  moreover have "setenv key val env = env'"
    unfolding setenv_def Some by simp
  ultimately show ?thesis by simp
qed

lemma filter_takeWhile_not: "filter P (takeWhile (\<lambda>e. \<not> P e) env) = []"
  by (induction env) auto

lemma filter_dropWhile_tl:
  "filter P (tl (dropWhile (\<lambda>e. \<not> P e) env)) = tl (filter P env)"
  by (induction env) auto

lemma HasPrefix_entry: "HasPrefix (key @ ''='' @ val) (key @ ''='')"
  by (simp add: HasPrefix_def)

lemma key_entries_setenv:
  "key_entries key (setenv key val env) = (key @ ''='' @ val) # tl (key_entries key env)"
proof -
  have "key_entries key (setenv key val env)
        = filter (\<lambda>e. HasPrefix e (key @ ''=''))
            (takeWhile (\<lambda>e. \<not> HasPrefix e (key @ ''='')) env @ (key @ ''='' @ val)
              # tl (dropWhile (\<lambda>e. \<not> HasPrefix e (key @ ''='')) env))"
    unfolding key_entries_def by (subst setenv_closed_form) (rule refl)
  also have "\<dots> = (key @ ''='' @ val) # tl (filter (\<lambda>e. HasPrefix e (key @ ''='')) env)"
    using HasPrefix_entry [of key val]
    by (simp add: filter_takeWhile_not filter_dropWhile_tl)
  finally show ?thesis by (simp add: key_entries_def)
qed

lemma takeWhile_dropWhile_replaced:
  "P x \<Longrightarrow> takeWhile (\<lambda>e. \<not> P e) (takeWhile (\<lambda>e. \<not> P e) env @ x # r) = takeWhile (\<lambda>e. \<not> P e) env
   \<and> dropWhile (\<lambda>e. \<not> P e) (takeWhile (\<lambda>e. \<not> P e) env @ x # r) = x # r"
  by (induction env) auto

lemma setenv_twice: "setenv key v2 (setenv key v1 env) = setenv key v2 env"
proof -
  let ?P = "\<lambda>e. HasPrefix e (key @ ''='')"
  let ?pre = "takeWhile (\<lambda>e. \<not> ?P e) env"
  let ?post = "tl (dropWhile (\<lambda>e. \<not> ?P e) env)"
  have a: "setenv key v1 env = ?pre @ (key @ ''='' @ v1) # ?post"
    by (rule setenv_closed_form)
  have h: "?P (key @ ''='' @ v1)" by (rule HasPrefix_entry)
  note r = takeWhile_dropWhile_replaced [of ?P "key @ ''='' @ v1" env ?post, OF h]
  have "setenv key v2 (?pre @ (key @ ''='' @ v1) # ?post) = ?pre @ (key @ ''='' @ v2) # ?post"
    by (subst setenv_closed_form) (simp only: r list.sel)
  also have "\<dots> = setenv key v2 env"
    by (rule setenv_closed_form [symmetric])
  finally show ?thesis unfolding a .
qed

lemma takeWhile_take: "takeWhile P xs = take (length (takeWhile P xs)) xs"
  by (induction xs) auto

lemma dropWhile_drop: "dropWhile P xs = drop (length (takeWhile P xs)) xs"
  by (induction xs) auto

lemma setenv_appends:
  assumes "key_entries key env = []"
  shows "setenv key val env = env @ [key @ ''='' @ val]"
proof -
  from assms have a: "\<forall>e\<in>set env. \<not> HasPrefix e (key @ ''='')"
    by (simp add: key_entries_def filter_empty_conv)
  have t: "takeWhile (\<lambda>e. \<not> HasPrefix e (key @ ''='')) env = env"
    using a by (simp add: takeWhile_eq_all_conv)
  have d: "dropWhile (\<lambda>e. \<not> HasPrefix e (key @ ''='')) env = []"
    using a by simp
  show ?thesis by (subst setenv_closed_form) (simp only: t d list.sel)
qed

lemma setenv_in_place:
  assumes "key_entries key env \<noteq> []"
  shows "length (takeWhile (\<lambda>e. \<not> HasPrefix e (key @ ''='')) env) < length env
       \<and> HasPrefix (env ! length (takeWhile (\<lambda>e. \<not> HasPrefix e (key @ ''='')) env)) (key @ ''='')
       \<and> setenv key val env
           = env[length (takeWhile (\<lambda>e. \<not> HasPrefix e (key @ ''='')) env) := key @ ''='' @ val]"
proof -
  let ?Q = "\<lambda>e. \<not> HasPrefix e (key @ ''='')"
  let ?i = "length (takeWhile ?Q env)"
  from assms obtain e where "e \<in> set env" and "HasPrefix e (key @ ''='')"
    by (auto simp add: key_entries_def filter_empty_conv)
  then have "takeWhile ?Q env \<noteq> env"
    by (auto simp add: takeWhile_eq_all_conv)
  then have lt: "?i < length env"
    using length_takeWhile_le [of ?Q env] takeWhile_eq_all_conv [of ?Q env]
    by (metis le_neq_implies_less length_takeWhile_le takeWhile_eq_take take_all_iff order_refl)
  have hp: "HasPrefix (env ! ?i) (key @ ''='')"
    using nth_length_takeWhile [OF lt] by simp
  have "setenv key val env = take ?i env @ (key @ ''='' @ val) # tl (drop ?i env)"
    by (subst setenv_closed_form) (metis takeWhile_take dropWhile_drop)
  also have "\<dots> = take ?i env @ (key @ ''='' @ val) # drop (Suc ?i) env"
    by (simp add: drop_Suc tl_drop)
  also have "\<dots> = env[?i := key @ ''='' @ val]"
    using upd_conv_take_nth_drop [OF lt] by simp
  finally show ?thesis using lt hp by blast
qed

lemma Setenv_second_call:
  "cmd_Env (osCmd (snd (Setenv_call 1 ''K'' ''v2'' (snd (Setenv_call 0 ''K'' ''v1'' c)))))
     = Some (setenv ''K='' ''v2'' (setenv ''K'' ''v1'' (entries (cmd_Env (osCmd c)))))"
  by (simp add: Setenv_call_def entries_def)

text \<open>
  C7. \<open>Setenv\<close> was written to set or overwrite the entry of a key, so that after
  \<open>Setenv K v1\<close> and \<open>Setenv K v2\<close> the environment holds one entry for \<open>K\<close>, the entry
  \<open>K=v2\<close>. Its loop returns at the first match, so it does not do that when the
  environment holds two entries for the key. Here the caller has set the environment to
  that of the calling process, which has the entry \<open>HOME=/root\<close>, followed by the entry
  \<open>HOME=/c\<close>. After \<open>Setenv HOME /a\<close> and \<open>Setenv HOME /b\<close> the process is created with
  two entries for the key: \<open>HOME=/b\<close> and, after it, the stale \<open>HOME=/c\<close>.
\<close>

theorem Setenv_duplicate_entries:
  "new_events example_world
     (snd (snd (Start example_platform (with_entry example_platform ''HOME=/c'')
        [Setenv ''HOME'' ''/a'', Setenv ''HOME'' ''/b''] example_world)))
     = [ProcStart ((exec_Command example_platform ''/usr/bin/go'' [])
          \<lparr>cmd_Env := Some [''PATH=/bin'', ''HOME=/b'', ''HOME=/c'']\<rparr>)]
   \<and> key_entries ''HOME'' [''PATH=/bin'', ''HOME=/b'', ''HOME=/c''] = [''HOME=/b'', ''HOME=/c'']
   \<and> length (key_entries ''HOME'' [''PATH=/bin'', ''HOME=/b'', ''HOME=/c'']) = 2
   \<and> last (key_entries ''HOME'' [''PATH=/bin'', ''HOME=/b'', ''HOME=/c'']) = ''HOME=/c''"
  by (simp add: Start_def applyDefaultOptions_def with_entry_def Command_def exec_Command_def
      Setenv_def Setenv_call_def setenv_def entries_def HasPrefix_def cmd_Start_def
      example_platform_def key_entries_def)

lemma applyDefaultOptions_Env:
  "cmd_Env (osCmd (snd (applyDefaultOptions p c)))
     = Some (case cmd_Env (osCmd c) of None \<Rightarrow> os_Environ p | Some env \<Rightarrow> env)"
  by (auto simp add: applyDefaultOptions_def)

lemma applyDefaultOptions_twice:
  "applyDefaultOptions p (snd (applyDefaultOptions p c)) = (None, snd (applyDefaultOptions p c))"
  by (simp add: applyDefaultOptions_def)

lemma Start_Setenv_twice:
  assumes "initalised c" and "before c = None"
  shows "Start p c [Setenv key v1, Setenv key v2] w =
     (os_Start p ((osCmd c)\<lparr>cmd_Env := Some (setenv key v2
          (case cmd_Env (osCmd c) of None \<Rightarrow> os_Environ p | Some env \<Rightarrow> env))\<rparr>),
      c\<lparr>osCmd := (osCmd c)\<lparr>cmd_Env := Some (setenv key v2
          (case cmd_Env (osCmd c) of None \<Rightarrow> os_Environ p | Some env \<Rightarrow> env))\<rparr>\<rparr>,
      log (ProcStart ((osCmd c)\<lparr>cmd_Env := Some (setenv key v2
          (case cmd_Env (osCmd c) of None \<Rightarrow> os_Environ p | Some env \<Rightarrow> env))\<rparr>)) w)"
  using assms
  by (cases "cmd_Env (osCmd c)")
     (simp_all add: Start_unfold applyDefaultOptions_def Setenv_def Setenv_call_def entries_def setenv_twice)

text \<open>
  What \<open>Setenv\<close> does in general: the first entry of the key is replaced in place, or an
  entry is appended when the key has none; the entries of the key are the new entry
  followed by all but the first of the old ones. On an environment with at most one
  entry for the key, two calls leave exactly one.
\<close>

lemma Setenv_overwrites:
  "cmd_Env (osCmd (snd (applyDefaultOptions p c)))
     = Some (case cmd_Env (osCmd c) of None \<Rightarrow> os_Environ p | Some env \<Rightarrow> env)
   \<and> applyDefaultOptions p (snd (applyDefaultOptions p c)) = (None, snd (applyDefaultOptions p c))
   \<and> (initalised c \<and> before c = None \<longrightarrow>
        new_events w (snd (snd (Start p c [Setenv key v1, Setenv key v2] w)))
          = [ProcStart ((osCmd c)\<lparr>cmd_Env := Some (setenv key v2
               (case cmd_Env (osCmd c) of None \<Rightarrow> os_Environ p | Some env \<Rightarrow> env))\<rparr>)])
   \<and> setenv key v2 (setenv key v1 env) = setenv key v2 env
   \<and> (key_entries key env = [] \<longrightarrow> setenv key val env = env @ [key @ ''='' @ val])
   \<and> (key_entries key env \<noteq> [] \<longrightarrow>
        length (takeWhile (\<lambda>e. \<not> HasPrefix e (key @ ''='')) env) < length env
        \<and> HasPrefix (env ! length (takeWhile (\<lambda>e. \<not> HasPrefix e (key @ ''='')) env)) (key @ ''='')
        \<and> setenv key val env
            = env[length (takeWhile (\<lambda>e. \<not> HasPrefix e (key @ ''='')) env) := key @ ''='' @ val])
   \<and> key_entries key (setenv key val env) = (key @ ''='' @ val) # tl (key_entries key env)
   \<and> (length (key_entries key env) \<le> 1 \<longrightarrow>
        key_entries key (setenv key v2 (setenv key v1 env)) = [key @ ''='' @ v2])"
proof -
  have s: "initalised c \<and> before c = None \<longrightarrow>
        new_events w (snd (snd (Start p c [Setenv key v1, Setenv key v2] w)))
          = [ProcStart ((osCmd c)\<lparr>cmd_Env := Some (setenv key v2
               (case cmd_Env (osCmd c) of None \<Rightarrow> os_Environ p | Some env \<Rightarrow> env))\<rparr>)]"
    by (simp add: Start_Setenv_twice)
  have one: "length (key_entries key env) \<le> 1 \<longrightarrow>
        key_entries key (setenv key v2 (setenv key v1 env)) = [key @ ''='' @ v2]"
  proof
    assume "length (key_entries key env) \<le> 1"
    then have "tl (key_entries key env) = []"
      by (cases "key_entries key env") auto
    then show "key_entries key (setenv key v2 (setenv key v1 env)) = [key @ ''='' @ v2]"
      by (simp only: setenv_twice key_entries_setenv)
  qed
  from applyDefaultOptions_Env [of p c] applyDefaultOptions_twice [of p c] s
    setenv_twice [of key v2 v1 env] setenv_appends [of key env val]
    setenv_in_place [of key env val] key_entries_setenv [of key val env] one
  show ?thesis by blast
qed

lemma Setenv_overwrites_example:
  "new_events example_world
     (snd (snd (Start example_platform (Command example_platform ''/usr/bin/go'' [])
        [Setenv ''HOME'' ''/a'', Setenv ''HOME'' ''/b''] example_world)))
     = [ProcStart ((exec_Command example_platform ''/usr/bin/go'' [])
          \<lparr>cmd_Env := Some [''PATH=/bin'', ''HOME=/b'']\<rparr>)]
   \<and> key_entries ''HOME'' (setenv ''HOME'' ''/b'' (setenv ''HOME'' ''/a'' [''PATH=/bin'', ''HOME=/root'']))
     = [''HOME=/b'']
   \<and> setenv ''K'' ''v'' [''PATH=/bin'', ''HOME=/root''] = [''PATH=/bin'', ''HOME=/root'', ''K=v'']"
  using Setenv_overwrites [where p = example_platform
      and c = "Command example_platform ''/usr/bin/go'' []" and w = example_world
      and key = "''HOME''" and ?v1.0 = "''/a''" and ?v2.0 = "''/b''" and val = "''/b''"
      and env = "[''PATH=/bin'', ''HOME=/root'']"]
  by (simp add: Command_def exec_Command_def example_platform_def setenv_def HasPrefix_def
      key_entries_def)

subsection \<open>Output\<close>

text \<open>
  \<open>Output\<close> with a \<open>Stdout\<close> option of the caller returns another error than "exec:
  Stdout already set" when the command was not made by \<open>Command\<close>, and when an option
  before the \<open>Stdout\<close> option fails first. This is a counterexample to C2 as it is
  stated.
\<close>

theorem Output_other_errors:
  "snd (fst (Output example_platform (zero_Cmd (exec_Command example_platform ''git'' [''status'']))
       [Stdout (Some os_Stdout)] example_world))
     = Some ''exec: command not initalised''
   \<and> snd (fst (Output example_platform (Command example_platform ''git'' [''status''])
       [Stdin (Some os_Stdin), Stdin (Some os_Stdin), Stdout (Some os_Stdout)] example_world))
     = Some ''exec: Stdin already set''
   \<and> snd (fst (Output example_platform (zero_Cmd (exec_Command example_platform ''git'' [''status'']))
       [Stdout (Some os_Stdout)] example_world))
     \<noteq> Some ''exec: Stdout already set''
   \<and> snd (fst (Output example_platform (Command example_platform ''git'' [''status''])
       [Stdin (Some os_Stdin), Stdin (Some os_Stdin), Stdout (Some os_Stdout)] example_world))
     \<noteq> Some ''exec: Stdout already set''"
  by (simp add: Output_def new_Buffer_def Run_def Start_def zero_Cmd_def Command_def
      exec_Command_def applyDefaultOptions_def Stdout_def Stdin_def)

lemma Output_unfold:
  "Output p c opts w =
     ((buffers (snd (snd (Run p c (Stdout (Some (Buffer (allocated w))) # opts) (snd (new_Buffer w)))))
         (allocated w),
       fst (Run p c (Stdout (Some (Buffer (allocated w))) # opts) (snd (new_Buffer w)))),
      snd (Run p c (Stdout (Some (Buffer (allocated w))) # opts) (snd (new_Buffer w))))"
  by (simp add: Output_def new_Buffer_def case_prod_unfold)

lemma new_Buffer_empty [simp]: "buffers (snd (new_Buffer w)) (allocated w) = []"
  by (simp add: new_Buffer_def)

lemma new_Buffer_events [simp]: "events (snd (new_Buffer w)) = events w"
  by (simp add: new_Buffer_def)

lemma applyDefaultOptions_Stdout [simp]:
  "cmd_Stdout (osCmd (snd (applyDefaultOptions p c))) = cmd_Stdout (osCmd c)"
  by (simp add: applyDefaultOptions_def)

lemma package_options_keep_Stdout:
  assumes "cmd_Stdout (osCmd c) \<noteq> None"
  shows "cmd_Stdout (osCmd (snd (Stdin r c))) \<noteq> None
       \<and> cmd_Stdout (osCmd (snd (Stdout wr c))) \<noteq> None
       \<and> cmd_Stdout (osCmd (snd (Stderr wr' c))) \<noteq> None
       \<and> cmd_Stdout (osCmd (snd (BeforeFunc fn c))) \<noteq> None
       \<and> cmd_Stdout (osCmd (snd (AfterFunc fn' c))) \<noteq> None
       \<and> cmd_Stdout (osCmd (snd (Setenv key val c))) \<noteq> None
       \<and> cmd_Stdout (osCmd (snd (Dir dir c))) \<noteq> None"
  using assms
  by (simp add: Stdin_def Stdout_def Stderr_def BeforeFunc_def AfterFunc_def Setenv_def Setenv_call_def Dir_def)

lemma Start_capture_set:
  assumes "initalised c" and "cmd_Stdout (osCmd c) \<noteq> None"
  shows "Start p c (Stdout v # opts) w
         = (Some ''exec: Stdout already set'', snd (applyDefaultOptions p c), w)"
  using assms by (simp add: Start_unfold Stdout_def)

lemma Start_capture_unset:
  assumes "initalised c" and "cmd_Stdout (osCmd c) = None"
  shows "Start p c (Stdout (Some (Buffer (allocated w0))) # opts) w
         = (case applyOptions (capturing p c w0) opts of
              (Some err, c2) \<Rightarrow> (Some err, c2, w)
            | (None, c2) \<Rightarrow>
                (case before c2 of
                   None \<Rightarrow> (os_Start p (osCmd c2), c2, log (ProcStart (osCmd c2)) w)
                 | Some fn \<Rightarrow>
                     (case fn (osCmd c2) of
                        (Some err, x) \<Rightarrow> (Some err, c2\<lparr>osCmd := x\<rparr>, log BeforeHook w)
                      | (None, x) \<Rightarrow>
                          (os_Start p x, c2\<lparr>osCmd := x\<rparr>, log (ProcStart x) (log BeforeHook w)))))"
  using assms by (simp add: Start_unfold Stdout_def capturing_def)

text \<open>
  C2, amended. \<open>Output\<close> puts a \<open>Stdout\<close> option bound to a new, empty buffer before the
  options of the caller and returns the bytes of that buffer after \<open>Run\<close>, together with
  the error of \<open>Run\<close>. On a command made by \<open>Command\<close>: when the standard output was
  bound already, the internal option fails with "exec: Stdout already set"; otherwise,
  with a \<open>Stdout\<close> option of the caller after the options \<open>pre\<close>, \<open>Output\<close> returns the
  error of the first option of \<open>pre\<close> that fails, and "exec: Stdout already set" when
  they all succeed and leave the standard output bound. In each of these cases no bytes
  are returned and no process is created. When the process runs, the bytes that the
  child wrote are returned with the error of the wait, whatever it is.
\<close>

theorem Output_captures:
  assumes "initalised c"
  shows "fst (Output p c opts w)
           = (buffers (snd (snd (Run p c (Stdout (Some (Buffer (allocated w))) # opts) (snd (new_Buffer w)))))
                (allocated w),
              fst (Run p c (Stdout (Some (Buffer (allocated w))) # opts) (snd (new_Buffer w))))
       \<and> (cmd_Stdout (osCmd c) \<noteq> None \<longrightarrow>
            Output p c opts w
              = (([], Some ''exec: Stdout already set''), snd (applyDefaultOptions p c), snd (new_Buffer w)))
       \<and> (cmd_Stdout (osCmd c) = None \<and> applyOptions (capturing p c w) pre = (Some err, ca) \<longrightarrow>
            Output p c (pre @ Stdout v # post) w = (([], Some err), ca, snd (new_Buffer w)))
       \<and> (cmd_Stdout (osCmd c) = None \<and> applyOptions (capturing p c w) pre = (None, ca)
            \<and> cmd_Stdout (osCmd ca) \<noteq> None \<longrightarrow>
            Output p c (pre @ Stdout v # post) w
              = (([], Some ''exec: Stdout already set''), ca, snd (new_Buffer w)))
       \<and> (cmd_Stdout (osCmd c) = None \<and> applyOptions (capturing p c w) opts = (None, cb)
            \<and> before cb = None \<and> \<not> waited cb \<and> cmd_Stdout (osCmd cb) = Some (Buffer (allocated w))
            \<and> os_Start p (osCmd cb) = None \<longrightarrow>
            fst (Output p c opts w)
              = (snd (os_Wait p (osCmd cb)),
                 case after cb of
                   None \<Rightarrow> fst (os_Wait p (osCmd cb))
                 | Some fn \<Rightarrow>
                     (case fst (os_Wait p (osCmd cb)) of
                        None \<Rightarrow> fst (fn (osCmd cb))
                      | Some e \<Rightarrow> Some e)))"
proof -
  have A: "cmd_Stdout (osCmd c) \<noteq> None \<longrightarrow>
            Output p c opts w
              = (([], Some ''exec: Stdout already set''), snd (applyDefaultOptions p c), snd (new_Buffer w))"
    by (simp add: Output_unfold Run_def Start_capture_set [OF assms])
  have B: "cmd_Stdout (osCmd c) = None \<and> applyOptions (capturing p c w) pre = (Some err, ca) \<longrightarrow>
            Output p c (pre @ Stdout v # post) w = (([], Some err), ca, snd (new_Buffer w))"
    by (simp add: Output_unfold Run_def Start_capture_unset [OF assms] applyOptions_append)
  have C: "cmd_Stdout (osCmd c) = None \<and> applyOptions (capturing p c w) pre = (None, ca)
            \<and> cmd_Stdout (osCmd ca) \<noteq> None \<longrightarrow>
            Output p c (pre @ Stdout v # post) w
              = (([], Some ''exec: Stdout already set''), ca, snd (new_Buffer w))"
    by (auto simp add: Output_unfold Run_def Start_capture_unset [OF assms] applyOptions_append
        Stdout_def)
  have D: "cmd_Stdout (osCmd c) = None \<and> applyOptions (capturing p c w) opts = (None, cb)
            \<and> before cb = None \<and> \<not> waited cb \<and> cmd_Stdout (osCmd cb) = Some (Buffer (allocated w))
            \<and> os_Start p (osCmd cb) = None \<longrightarrow>
            fst (Output p c opts w)
              = (snd (os_Wait p (osCmd cb)),
                 case after cb of
                   None \<Rightarrow> fst (os_Wait p (osCmd cb))
                 | Some fn \<Rightarrow>
                     (case fst (os_Wait p (osCmd cb)) of
                        None \<Rightarrow> fst (fn (osCmd cb))
                      | Some e \<Rightarrow> Some e))"
    by (auto simp add: Output_unfold Run_def Start_capture_unset [OF assms] Wait_unfold
        cmd_Wait_def case_prod_unfold new_Buffer_def split: option.split)
  from Output_unfold [of p c opts w] A B C D show ?thesis by simp
qed

theorem Output_captures_witness:
  "Output example_platform (Command example_platform ''git'' [''status''])
       ([Dir ''/tmp''] @ Stdout (Some os_Stdout) # []) example_world
     = (([], Some ''exec: Stdout already set''),
        (capturing example_platform (Command example_platform ''git'' [''status'']) example_world)
          \<lparr>osCmd := (osCmd (capturing example_platform (Command example_platform ''git'' [''status''])
              example_world))\<lparr>cmd_Dir := ''/tmp''\<rparr>\<rparr>,
        snd (new_Buffer example_world))
   \<and> fst (Output example_platform (Command example_platform ''git'' [''status'']) [Dir ''/tmp'']
        example_world)
     = (''partial'', Some ''exit status 1'')"
proof -
  let ?c = "Command example_platform ''git'' [''status'']"
  let ?cb = "(capturing example_platform ?c example_world)
          \<lparr>osCmd := (osCmd (capturing example_platform ?c example_world))\<lparr>cmd_Dir := ''/tmp''\<rparr>\<rparr>"
  have i: "initalised ?c" by (simp add: Command_def)
  have n: "cmd_Stdout (osCmd ?c) = None" by (simp add: Command_def exec_Command_def)
  have a: "applyOptions (capturing example_platform ?c example_world) [Dir ''/tmp''] = (None, ?cb)"
    by (simp add: Dir_def)
  have b: "cmd_Stdout (osCmd ?cb) = Some (Buffer (allocated example_world))"
    by (simp add: capturing_def)
  have h: "before ?cb = None \<and> after ?cb = None \<and> \<not> waited ?cb"
    by (simp add: capturing_def applyDefaultOptions_def Command_def)
  have s: "os_Start example_platform (osCmd ?cb) = None
      \<and> os_Wait example_platform (osCmd ?cb) = (Some ''exit status 1'', ''partial'')"
    by (simp add: example_platform_def)
  note T = Output_captures [OF i, where p = example_platform and w = example_world
      and opts = "[Dir ''/tmp'']" and pre = "[Dir ''/tmp'']" and v = "Some os_Stdout"
      and post = "[]" and ca = ?cb and cb = ?cb, THEN conjunct2]
  from T n a b have 1: "Output example_platform ?c ([Dir ''/tmp''] @ Stdout (Some os_Stdout) # [])
        example_world
      = (([], Some ''exec: Stdout already set''), ?cb, snd (new_Buffer example_world))"
    by simp
  from T n a b h s have 2: "fst (Output example_platform ?c [Dir ''/tmp''] example_world)
      = (''partial'', Some ''exit status 1'')"
    by simp
  from 1 2 show ?thesis by simp
qed

end
